theory Spec2Isabelle
  imports Complex_Main "HOL-Library.Word" "HOL-Library.Multiset"
begin

section \<open>JavaScript strings\<close>

text \<open>
  A JavaScript string is a sequence of 16-bit UTF-16 code units; \<open>length\<close>, the regular
  expressions without the \<open>u\<close> flag and \<open>trim\<close> all work on code units.
  \<open>js\<close> embeds an ASCII literal of the source.
\<close>

type_synonym code_unit = "16 word"
type_synonym jsstring = "code_unit list"

definition js :: "string \<Rightarrow> jsstring" where
  "js s = map of_char s"

definition underscore :: code_unit where
  "underscore = 0x5F"

text \<open>
  The character class \<open>[a-z0-9]\<close> under the flag \<open>i\<close> (and without \<open>u\<close>): the letters
  of both cases and the digits. Without \<open>u\<close> no code unit above 127 is folded onto an
  ASCII letter.
\<close>

definition is_alnum :: "code_unit \<Rightarrow> bool" where
  "is_alnum c \<longleftrightarrow>
     (0x61 \<le> c \<and> c \<le> 0x7A) \<or> (0x41 \<le> c \<and> c \<le> 0x5A) \<or> (0x30 \<le> c \<and> c \<le> 0x39)"

definition is_lower_alnum :: "code_unit \<Rightarrow> bool" where
  "is_lower_alnum c \<longleftrightarrow> (0x61 \<le> c \<and> c \<le> 0x7A) \<or> (0x30 \<le> c \<and> c \<le> 0x39)"

section \<open>utils.ts: FileUtil.sanitizeFilename\<close>

text \<open>\<^verbatim>\<open>.replace(/[^a-z0-9]/gi, "_")\<close>: every code unit outside the class becomes an underscore.\<close>

definition replace_non_alnum :: "jsstring \<Rightarrow> jsstring" where
  "replace_non_alnum s = map (\<lambda>c. if is_alnum c then c else underscore) s"

text \<open>
  \<^verbatim>\<open>.toLowerCase()\<close>. At its only call site the string consists of ASCII letters, digits
  and underscores (lemma \<open>replace_non_alnum_ascii\<close>), where lowercasing adds 32 to the
  letters A to Z; the model leaves every other code unit as it is.
\<close>

definition toLowerCase_unit :: "code_unit \<Rightarrow> code_unit" where
  "toLowerCase_unit c = (if 0x41 \<le> c \<and> c \<le> 0x5A then c + 0x20 else c)"

definition toLowerCase :: "jsstring \<Rightarrow> jsstring" where
  "toLowerCase s = map toLowerCase_unit s"

text \<open>
  \<^verbatim>\<open>.replace(/_+/g, "_")\<close>: scanning from the left, each maximal run of underscores is
  matched greedily and replaced by one underscore.
\<close>

function collapse_underscores :: "jsstring \<Rightarrow> jsstring" where
  "collapse_underscores [] = []"
| "collapse_underscores (c # cs) =
     (if c = underscore
      then underscore # collapse_underscores (dropWhile (\<lambda>d. d = underscore) cs)
      else c # collapse_underscores cs)"
  by pat_completeness auto
termination
  by (relation "measure length") (auto simp: length_dropWhile_le less_Suc_eq_le)

text \<open>
  \<^verbatim>\<open>.replace(/^_|_$/g, "")\<close>: the first alternative matches one underscore at index 0,
  the second one underscore at the last index; matches do not overlap, so the search for
  the second resumes after the first.
\<close>

definition strip_edge_underscores :: "jsstring \<Rightarrow> jsstring" where
  "strip_edge_underscores s =
     (let t = (case s of [] \<Rightarrow> [] | c # cs \<Rightarrow> if c = underscore then cs else s)
      in if t \<noteq> [] \<and> last t = underscore then butlast t else t)"

definition sanitizeFilename :: "jsstring \<Rightarrow> jsstring" where
  "sanitizeFilename filename =
     strip_edge_underscores (collapse_underscores (toLowerCase (replace_non_alnum filename)))"

subsection \<open>The sanitization rule in the words of the specification\<close>

text \<open>
  Replace every character outside \<open>[A-Za-z0-9]\<close> with an underscore; lowercase the result;
  collapse runs of underscores to one; strip leading and trailing underscores.
\<close>

fun collapse_runs :: "jsstring \<Rightarrow> jsstring" where
  "collapse_runs (a # b # cs) =
     (if a = underscore \<and> b = underscore then collapse_runs (b # cs)
      else a # collapse_runs (b # cs))"
| "collapse_runs cs = cs"

definition strip_underscores :: "jsstring \<Rightarrow> jsstring" where
  "strip_underscores s =
     rev (dropWhile (\<lambda>d. d = underscore) (rev (dropWhile (\<lambda>d. d = underscore) s)))"

definition sanitize_rule :: "jsstring \<Rightarrow> jsstring" where
  "sanitize_rule s =
     strip_underscores (collapse_runs (map toLowerCase_unit
       (map (\<lambda>c. if is_alnum c then c else underscore) s)))"

text \<open>The shape of a sanitized filename.\<close>

fun no_adjacent_underscores :: "jsstring \<Rightarrow> bool" where
  "no_adjacent_underscores (a # b # cs) =
     (\<not> (a = underscore \<and> b = underscore) \<and> no_adjacent_underscores (b # cs))"
| "no_adjacent_underscores cs = True"

definition filename_safe :: "jsstring \<Rightarrow> bool" where
  "filename_safe s \<longleftrightarrow>
     (\<forall>c \<in> set s. is_lower_alnum c \<or> c = underscore) \<and>
     no_adjacent_underscores s \<and>
     (s \<noteq> [] \<longrightarrow> hd s \<noteq> underscore \<and> last s \<noteq> underscore)"

section \<open>JavaScript numbers\<close>

text \<open>
  A \<open>number\<close> is an IEEE double: \<open>NaN\<close>, an infinity, or a finite value, which is a
  real number. The result of an arithmetic operation on finite values is the rounding of
  the exact result. The rounding belongs to the runtime and is a parameter \<open>rnd\<close> of the
  operations: \<open>rnd r\<close> is the double that the exact result \<open>r\<close> rounds to, or \<open>None\<close>
  when \<open>r\<close> overflows, to the infinity of its sign. The two zeros are not distinguished;
  no operation of the source divides by a variable.
\<close>

datatype jsnum = NaN | Num real | PosInf | NegInf

definition round_to :: "(real \<Rightarrow> real option) \<Rightarrow> real \<Rightarrow> jsnum" where
  "round_to rnd r = (case rnd r of Some d \<Rightarrow> Num d | None \<Rightarrow> if 0 < r then PosInf else NegInf)"

text \<open>The sign of a number other than \<open>NaN\<close>.\<close>

fun js_sign :: "jsnum \<Rightarrow> int" where
  "js_sign (Num a) = (if a = 0 then 0 else if 0 < a then 1 else - 1)"
| "js_sign PosInf = 1"
| "js_sign NegInf = - 1"
| "js_sign NaN = 0"

fun js_mul :: "(real \<Rightarrow> real option) \<Rightarrow> jsnum \<Rightarrow> jsnum \<Rightarrow> jsnum" where
  "js_mul rnd NaN b = NaN"
| "js_mul rnd a NaN = NaN"
| "js_mul rnd (Num a) (Num b) = round_to rnd (a * b)"
| "js_mul rnd a b =
     (if js_sign a * js_sign b = 0 then NaN
      else if 0 < js_sign a * js_sign b then PosInf else NegInf)"

fun js_add :: "(real \<Rightarrow> real option) \<Rightarrow> jsnum \<Rightarrow> jsnum \<Rightarrow> jsnum" where
  "js_add rnd NaN b = NaN"
| "js_add rnd a NaN = NaN"
| "js_add rnd (Num a) (Num b) = round_to rnd (a + b)"
| "js_add rnd PosInf NegInf = NaN"
| "js_add rnd NegInf PosInf = NaN"
| "js_add rnd PosInf b = PosInf"
| "js_add rnd NegInf b = NegInf"
| "js_add rnd a b = b"

fun js_sub :: "(real \<Rightarrow> real option) \<Rightarrow> jsnum \<Rightarrow> jsnum \<Rightarrow> jsnum" where
  "js_sub rnd NaN b = NaN"
| "js_sub rnd a NaN = NaN"
| "js_sub rnd (Num a) (Num b) = round_to rnd (a - b)"
| "js_sub rnd PosInf PosInf = NaN"
| "js_sub rnd NegInf NegInf = NaN"
| "js_sub rnd PosInf b = PosInf"
| "js_sub rnd NegInf b = NegInf"
| "js_sub rnd a PosInf = NegInf"
| "js_sub rnd a NegInf = PosInf"

text \<open>Division by a non-zero literal \<open>d\<close> (the source divides by 2 and by 255 only).\<close>

fun js_div_lit :: "(real \<Rightarrow> real option) \<Rightarrow> jsnum \<Rightarrow> real \<Rightarrow> jsnum" where
  "js_div_lit rnd NaN d = NaN"
| "js_div_lit rnd (Num a) d = round_to rnd (a / d)"
| "js_div_lit rnd PosInf d = (if 0 < d then PosInf else NegInf)"
| "js_div_lit rnd NegInf d = (if 0 < d then NegInf else PosInf)"

text \<open>The comparisons: false as soon as one side is \<open>NaN\<close>.\<close>

fun js_le :: "jsnum \<Rightarrow> jsnum \<Rightarrow> bool" where
  "js_le NaN b = False"
| "js_le a NaN = False"
| "js_le (Num a) (Num b) = (a \<le> b)"
| "js_le NegInf b = True"
| "js_le a PosInf = True"
| "js_le a b = False"

fun js_lt :: "jsnum \<Rightarrow> jsnum \<Rightarrow> bool" where
  "js_lt NaN b = False"
| "js_lt a NaN = False"
| "js_lt (Num a) (Num b) = (a < b)"
| "js_lt PosInf b = False"
| "js_lt a NegInf = False"
| "js_lt a b = True"

definition js_gt :: "jsnum \<Rightarrow> jsnum \<Rightarrow> bool" where
  "js_gt a b = js_lt b a"

declare js_gt_def [simp]

text \<open>\<open>Math.max\<close> and \<open>Math.min\<close>: \<open>NaN\<close> as soon as one argument is \<open>NaN\<close>.\<close>

definition Math_max :: "jsnum \<Rightarrow> jsnum \<Rightarrow> jsnum" where
  "Math_max a b = (if a = NaN \<or> b = NaN then NaN else if js_le a b then b else a)"

definition Math_min :: "jsnum \<Rightarrow> jsnum \<Rightarrow> jsnum" where
  "Math_min a b = (if a = NaN \<or> b = NaN then NaN else if js_le a b then a else b)"

text \<open>Truthiness: a number is falsy when it is 0 or \<open>NaN\<close>, a string when it is empty.\<close>

fun truthy_num :: "jsnum \<Rightarrow> bool" where
  "truthy_num NaN = False"
| "truthy_num (Num a) = (a \<noteq> 0)"
| "truthy_num PosInf = True"
| "truthy_num NegInf = True"

definition truthy_string :: "jsstring \<Rightarrow> bool" where
  "truthy_string s \<longleftrightarrow> s \<noteq> []"

text \<open>
  The literal \<open>0.6\<close> of the source denotes the double nearest to 6/10, which is
  5404319552844595 / 2^53.
\<close>

definition literal_0_6 :: jsnum where
  "literal_0_6 = Num (5404319552844595 / 9007199254740992)"

text \<open>
  A rounding that changes nothing, for the concrete examples whose values do not depend
  on the rounding.
\<close>

definition exact_rounding :: "real \<Rightarrow> real option" where
  "exact_rounding r = Some r"

text \<open>Every integer up to 2^53 is a double, and the rounding leaves a double as it is.\<close>

definition rounds_integers_exactly :: "(real \<Rightarrow> real option) \<Rightarrow> bool" where
  "rounds_integers_exactly rnd \<longleftrightarrow>
     (\<forall>m::nat. m \<le> 9007199254740992 \<longrightarrow> rnd (real m) = Some (real m))"

section \<open>types.ts\<close>

record RGB =
  rgb_r :: jsnum
  rgb_g :: jsnum
  rgb_b :: jsnum

record Position =
  pos_x :: jsnum
  pos_y :: jsnum

text \<open>An optional field is an \<open>option\<close>: \<open>None\<close> when the property is absent.\<close>

record CertificateConfig =
  name :: jsstring
  email :: "jsstring option"
  outputPath :: "jsstring option"
  fontSize :: "jsnum option"
  fontColor :: "RGB option"
  position :: "Position option"

datatype Mode = Test | Production

record GeneratorOptions =
  templatePath :: jsstring
  fontPath :: jsstring
  outputDir :: jsstring
  defaultFontSize :: jsnum
  defaultFontColor :: RGB
  concurrency :: jsnum
  mode :: Mode
  testName :: "jsstring option"

section \<open>The error classes\<close>

text \<open>
  The four classes of the repository, \<open>CertificateGeneratorError\<close> and its three
  subclasses, and \<open>ForeignError\<close> for every other thrown value (an \<open>Error\<close> of the
  runtime or of a library). An error object has its \<open>name\<close>, its \<open>message\<close> and its
  optional \<open>cause\<close>, and no other property.
\<close>

datatype error_class =
  ForeignError | CertificateGeneratorError | FileNotFoundError | InvalidConfigError
  | DataValidationError

datatype js_error =
  JsError (err_class: error_class) (err_name: jsstring) (err_message: jsstring)
    (err_cause: "js_error option")

definition new_CertificateGeneratorError :: "jsstring \<Rightarrow> js_error option \<Rightarrow> js_error" where
  "new_CertificateGeneratorError message cause =
     JsError CertificateGeneratorError (js ''CertificateGeneratorError'') message cause"

definition new_InvalidConfigError :: "jsstring \<Rightarrow> js_error" where
  "new_InvalidConfigError message =
     JsError InvalidConfigError (js ''InvalidConfigError'')
       (js ''Invalid configuration: '' @ message) None"

text \<open>\<^verbatim>\<open>error instanceof CertificateGeneratorError\<close>: the class itself or a subclass.\<close>

definition instanceof_CertificateGeneratorError :: "js_error \<Rightarrow> bool" where
  "instanceof_CertificateGeneratorError e \<longleftrightarrow> err_class e \<noteq> ForeignError"

section \<open>certificate-generator.ts: the per-item functions\<close>

text \<open>
  \<open>String.prototype.trim\<close> removes the white space and line terminators of ECMAScript
  from both ends.
\<close>

definition is_whitespace :: "code_unit \<Rightarrow> bool" where
  "is_whitespace c \<longleftrightarrow>
     c \<in> set [0x09, 0x0A, 0x0B, 0x0C, 0x0D, 0x20, 0xA0, 0x1680, 0x2028, 0x2029, 0x202F,
       0x205F, 0x3000, 0xFEFF] \<or> (0x2000 \<le> c \<and> c \<le> 0x200A)"

definition trim :: "jsstring \<Rightarrow> jsstring" where
  "trim s = rev (dropWhile is_whitespace (rev (dropWhile is_whitespace s)))"

definition validateCertificateConfig :: "GeneratorOptions \<Rightarrow> CertificateConfig \<Rightarrow> js_error + unit" where
  "validateCertificateConfig opts config =
     (if \<not> truthy_string (name config) \<or> length (trim (name config)) = 0
      then Inl (new_InvalidConfigError (js ''Certificate name cannot be empty''))
      else if (case fontSize config of None \<Rightarrow> False
               | Some n \<Rightarrow> truthy_num n \<and> (js_le n (Num 0) \<or> js_gt n (Num 200)))
      then Inl (new_InvalidConfigError (js ''Font size must be between 1 and 200''))
      else if mode opts = Production \<and>
              (case email config of None \<Rightarrow> True
               | Some e \<Rightarrow> \<not> truthy_string e \<or> length (trim e) = 0)
      then Inl (new_InvalidConfigError (js ''Email is required in production mode''))
      else Inr ())"

definition calculateTextPosition ::
  "(real \<Rightarrow> real option) \<Rightarrow> jsstring \<Rightarrow> jsnum \<Rightarrow> jsnum \<Rightarrow> jsnum \<Rightarrow> Position option \<Rightarrow> Position" where
  "calculateTextPosition rnd txt font_size page_width page_height custom_position =
     (case custom_position of
        Some p \<Rightarrow> p
      | None \<Rightarrow>
          let text_width =
                js_mul rnd (js_mul rnd (Num (real (length txt))) font_size) literal_0_6
          in \<lparr>pos_x = Math_max (Num 0) (js_div_lit rnd (js_sub rnd page_width text_width) 2),
              pos_y = js_sub rnd (js_div_lit rnd page_height 2) (js_div_lit rnd font_size 2)\<rparr>)"

text \<open>
  \<open>path.join\<close> and the clock belong to the runtime, not to the repository:
  \<open>generateOutputPath\<close> takes the first as the parameter \<open>path_join\<close> and the value of
  \<^verbatim>\<open>new Date().toISOString()\<close> at the call as \<open>now_iso\<close>. \<^verbatim>\<open>.slice(0, 10)\<close> keeps its
  first ten code units.
\<close>

definition generateOutputPath ::
  "(jsstring \<Rightarrow> jsstring \<Rightarrow> jsstring) \<Rightarrow> jsstring \<Rightarrow> GeneratorOptions \<Rightarrow> CertificateConfig \<Rightarrow> jsstring" where
  "generateOutputPath path_join now_iso opts config =
     (let derived =
        (let sanitizedName = sanitizeFilename (name config);
             timestamp = take 10 now_iso;
             filename =
               (case email config of
                  Some e \<Rightarrow>
                    if truthy_string e \<and> mode opts = Production
                    then sanitizedName @ js ''_'' @ sanitizeFilename e
                    else sanitizedName
                | None \<Rightarrow> sanitizedName)
         in path_join (outputDir opts) (filename @ js ''_'' @ timestamp @ js ''.pdf''))
      in case outputPath config of
           Some p \<Rightarrow> if truthy_string p then p else derived
         | None \<Rightarrow> derived)"

text \<open>
  For a directory without a trailing separator or dot segments and a file name without a
  separator, the POSIX \<open>path.join\<close> returns the two joined by a slash. \<open>join_plain\<close>
  instantiates the parameter on such inputs in the concrete examples.
\<close>

definition join_plain :: "jsstring \<Rightarrow> jsstring \<Rightarrow> jsstring" where
  "join_plain dir file = dir @ js ''/'' @ file"

definition wrapRGB :: "(real \<Rightarrow> real option) \<Rightarrow> RGB \<Rightarrow> RGB" where
  "wrapRGB rnd color =
     \<lparr>rgb_r = js_div_lit rnd (rgb_r color) 255, rgb_g = js_div_lit rnd (rgb_g color) 255,
      rgb_b = js_div_lit rnd (rgb_b color) 255\<rparr>"

section \<open>certificate-generator.ts: generateCertificate\<close>

text \<open>
  The rendering engine, the file system, the clock, \<open>path.join\<close> and the rounding of
  the arithmetic are outside the repository. A \<open>render_env\<close> fixes what they answer during one call: the pages of the
  loaded template or the value thrown by the load, and for each later call the value it
  throws, if any. An entry of the page array may be absent, as the test of
  \<open>pages[0]\<close> in the source allows. The calls of the source that are not listed
  (\<open>registerFontkit\<close>, \<open>getWidth\<close>, \<open>getHeight\<close>, the logger) are taken not to throw; the
  conversion of the colour by \<open>wrapRGB\<close> is part of the \<open>drawText\<close> step.
\<close>

record pdf_page =
  getWidth :: jsnum
  getHeight :: jsnum

record render_env =
  env_round :: "real \<Rightarrow> real option"
  env_join :: "jsstring \<Rightarrow> jsstring \<Rightarrow> jsstring"
  env_now :: jsstring
  load_pages :: "js_error + pdf_page option list"
  embedFont_throws :: "js_error option"
  drawText_throws :: "js_error option"
  ensureDir_throws :: "js_error option"
  save_throws :: "js_error option"
  writeFile_throws :: "js_error option"

text \<open>The calls made to the outside, in the order of the call.\<close>

datatype effect =
  LoadTemplate | EmbedFont | DrawText jsstring Position jsnum RGB | EnsureDirForFile jsstring
  | SaveDocument | WriteFile jsstring | LogSuccess jsstring | LogError jsstring

text \<open>The body of the \<open>try\<close> block: the path, or the first value thrown.\<close>

definition try_block ::
  "GeneratorOptions \<Rightarrow> render_env \<Rightarrow> CertificateConfig \<Rightarrow> (js_error + jsstring) \<times> effect list" where
  "try_block opts env config =
     (case load_pages env of
        Inl e \<Rightarrow> (Inl e, [LoadTemplate])
      | Inr pages \<Rightarrow>
          (case pages of
             [] \<Rightarrow>
               (Inl (new_CertificateGeneratorError (js ''Template PDF has no pages'') None),
                [LoadTemplate])
           | None # _ \<Rightarrow>
               (Inl (new_CertificateGeneratorError
                       (js ''Template PDF has no valid first page'') None),
                [LoadTemplate])
           | Some firstPage # _ \<Rightarrow>
               (let font_size =
                      (case fontSize config of
                         Some n \<Rightarrow> if truthy_num n then n else defaultFontSize opts
                       | None \<Rightarrow> defaultFontSize opts);
                    font_color =
                      (case fontColor config of Some c \<Rightarrow> c | None \<Rightarrow> defaultFontColor opts);
                    pos = calculateTextPosition (env_round env) (name config) font_size (getWidth firstPage)
                            (getHeight firstPage) (position config);
                    drawn = [LoadTemplate, EmbedFont,
                             DrawText (name config) pos font_size (wrapRGB (env_round env) font_color)];
                    output_path = generateOutputPath (env_join env) (env_now env) opts config;
                    success_message =
                      js ''Certificate generated: '' @ name config @
                      (case email config of
                         Some e \<Rightarrow> if truthy_string e then js '' ('' @ e @ js '')'' else []
                       | None \<Rightarrow> [])
                in case embedFont_throws env of
                     Some e \<Rightarrow> (Inl e, [LoadTemplate, EmbedFont])
                   | None \<Rightarrow>
                (case drawText_throws env of
                     Some e \<Rightarrow> (Inl e, drawn)
                   | None \<Rightarrow>
                (case ensureDir_throws env of
                     Some e \<Rightarrow> (Inl e, drawn @ [EnsureDirForFile output_path])
                   | None \<Rightarrow>
                (case save_throws env of
                     Some e \<Rightarrow> (Inl e, drawn @ [EnsureDirForFile output_path, SaveDocument])
                   | None \<Rightarrow>
                (case writeFile_throws env of
                     Some e \<Rightarrow>
                       (Inl e, drawn @ [EnsureDirForFile output_path, SaveDocument,
                                        WriteFile output_path])
                   | None \<Rightarrow>
                       (Inr output_path,
                        drawn @ [EnsureDirForFile output_path, SaveDocument,
                                 WriteFile output_path, LogSuccess success_message]))))))))"

text \<open>The \<open>catch\<close> block: what is thrown on, for the value \<open>error\<close> caught.\<close>

definition catch_block :: "CertificateConfig \<Rightarrow> js_error \<Rightarrow> js_error" where
  "catch_block config error =
     (let errorMessage = js ''Failed to generate certificate for: '' @ name config
      in if instanceof_CertificateGeneratorError error then error
         else new_CertificateGeneratorError errorMessage (Some error))"

text \<open>
  \<open>generateCertificate\<close>: the validation, outside the \<open>try\<close>; then the block; the
  \<open>catch\<close> logs the failure before it throws.
\<close>

definition generateCertificate ::
  "GeneratorOptions \<Rightarrow> render_env \<Rightarrow> CertificateConfig \<Rightarrow> (js_error + jsstring) \<times> effect list" where
  "generateCertificate opts env config =
     (case validateCertificateConfig opts config of
        Inl e \<Rightarrow> (Inl e, [])
      | Inr _ \<Rightarrow>
          (case try_block opts env config of
             (Inr output_path, effects) \<Rightarrow> (Inr output_path, effects)
           | (Inl error, effects) \<Rightarrow>
               (Inl (catch_block config error),
                effects @
                [LogError (js ''Failed to generate certificate for: '' @ name config)])))"

section \<open>certificate-generator.ts: the constructor\<close>

text \<open>
  The checks of \<open>validateOptions\<close> that precede those of the file system. The
  concurrency is the \<open>number\<close> that \<open>parseInt\<close> of config.ts gives, \<open>NaN\<close> for a malformed
  \<open>CONCURRENCY\<close>.
\<close>

definition validateOptions :: "GeneratorOptions \<Rightarrow> js_error + unit" where
  "validateOptions opts =
     (if \<not> truthy_string (templatePath opts) \<or> \<not> truthy_string (fontPath opts) \<or>
         \<not> truthy_string (outputDir opts)
      then Inl (new_InvalidConfigError (js ''templatePath, fontPath, and outputDir are required''))
      else if js_le (concurrency opts) (Num 0)
      then Inl (new_InvalidConfigError (js ''concurrency must be greater than 0''))
      else if mode opts = Test \<and>
              (case testName opts of None \<Rightarrow> True
               | Some t \<Rightarrow> \<not> truthy_string t \<or> length (trim t) = 0)
      then Inl (new_InvalidConfigError (js ''testName is required when mode is '' @ [0x22] @ js ''test'' @ [0x22]))
      else Inr ())"

section \<open>certificate-generator.ts: generateCertificates\<close>

text \<open>
  \<open>Array.prototype.slice\<close>: each bound is truncated towards zero, \<open>NaN\<close> counting as 0;
  a negative bound counts from the end; both are clamped to the length.
\<close>

definition truncate_real :: "real \<Rightarrow> int" where
  "truncate_real r = (if 0 \<le> r then \<lfloor>r\<rfloor> else \<lceil>r\<rceil>)"

fun slice_index :: "nat \<Rightarrow> jsnum \<Rightarrow> nat" where
  "slice_index len NaN = 0"
| "slice_index len NegInf = 0"
| "slice_index len PosInf = len"
| "slice_index len (Num r) =
     (let k = truncate_real r
      in if k < 0 then nat (max (int len + k) 0) else min (nat k) len)"

definition js_slice :: "'a list \<Rightarrow> jsnum \<Rightarrow> jsnum \<Rightarrow> 'a list" where
  "js_slice xs lo hi =
     (let first = slice_index (length xs) lo; final = slice_index (length xs) hi
      in take (final - first) (drop first xs))"

text \<open>The object that the callback of \<open>chunk.map\<close> resolves to.\<close>

record item_result =
  success :: bool
  res_outputPath :: "jsstring option"
  res_error :: "js_error option"
  res_config :: CertificateConfig

definition run_item :: "GeneratorOptions \<Rightarrow> render_env \<Rightarrow> CertificateConfig \<Rightarrow> item_result" where
  "run_item opts env config =
     (case fst (generateCertificate opts env config) of
        Inr output_path \<Rightarrow>
          \<lparr>success = True, res_outputPath = Some output_path, res_error = None,
           res_config = config\<rparr>
      | Inl error \<Rightarrow>
          \<lparr>success = False, res_outputPath = None, res_error = Some error,
           res_config = config\<rparr>)"

text \<open>
  What the driver does and observes: the start of a render, the settling of its promise,
  the two log lines. Renders are identified by the index of their item in the batch.
\<close>

datatype batch_event = BatchStarted nat | Launched nat | Settled nat | Progress jsnum nat

record batch_state =
  successful :: "jsstring list"
  failed :: "(CertificateConfig \<times> js_error) list"
  trace :: "batch_event list"

text \<open>The body of \<open>results.forEach\<close>.\<close>

definition collect_result :: "item_result \<Rightarrow> batch_state \<Rightarrow> batch_state" where
  "collect_result result st =
     (case (success result, res_outputPath result) of
        (True, Some output_path) \<Rightarrow> st\<lparr>successful := successful st @ [output_path]\<rparr>
      | _ \<Rightarrow>
          st\<lparr>failed := failed st @
            [(res_config result,
              case res_error result of
                Some e \<Rightarrow> e
              | None \<Rightarrow> JsError ForeignError (js ''Error'') (js ''Unknown error'') None)]\<rparr>)"

text \<open>
  One turn of the loop, for the value \<open>i\<close> of the loop variable. \<open>chunk.map\<close> starts the
  render of every item of the chunk, each up to its first \<open>await\<close>: \<open>runs\<close> pairs the
  index of each item with the result of its render. The promises settle in an order that
  the runtime decides, \<open>settle_order\<close> of the indices of the renders started;
  \<open>Promise.all\<close> resolves once all have settled, to the results in the order of the
  chunk. \<open>envs j\<close> is the outside as seen by the render of the item at index \<open>j\<close>, and
  \<open>rnd\<close> is the rounding of the additions of the loop.
\<close>

definition process_chunk ::
  "(real \<Rightarrow> real option) \<Rightarrow> GeneratorOptions \<Rightarrow> (nat \<Rightarrow> render_env) \<Rightarrow> (nat list \<Rightarrow> nat list) \<Rightarrow>
   CertificateConfig list \<Rightarrow> jsnum \<Rightarrow> batch_state \<Rightarrow> batch_state" where
  "process_chunk rnd opts envs settle_order configs i st =
     (let upper = js_add rnd i (concurrency opts);
          chunk = js_slice configs i upper;
          first = slice_index (length configs) i;
          runs = map (\<lambda>(j, config). (j, run_item opts (envs j) config))
                   (zip [first ..< first + length chunk] chunk);
          st' = fold collect_result (map snd runs) st;
          processed = Math_min upper (Num (real (length configs)))
      in st'\<lparr>trace := trace st' @ map (\<lambda>(j, result). Launched j) runs @
                       map Settled (settle_order (map fst runs)) @
                       [Progress processed (length configs)]\<rparr>)"

text \<open>
  The loop \<^verbatim>\<open>for (let i = 0; i < configs.length; i += concurrency)\<close>. Where the loop of
  the source does not end, the function is \<open>None\<close>.
\<close>

partial_function (option) process_chunks ::
  "(real \<Rightarrow> real option) \<Rightarrow> GeneratorOptions \<Rightarrow> (nat \<Rightarrow> render_env) \<Rightarrow> (nat list \<Rightarrow> nat list) \<Rightarrow>
   CertificateConfig list \<Rightarrow> jsnum \<Rightarrow> batch_state \<Rightarrow> batch_state option" where
  "process_chunks rnd opts envs settle_order configs i st =
     (if js_lt i (Num (real (length configs)))
      then process_chunks rnd opts envs settle_order configs (js_add rnd i (concurrency opts))
             (process_chunk rnd opts envs settle_order configs i st)
      else Some st)"

definition generateCertificates ::
  "(real \<Rightarrow> real option) \<Rightarrow> GeneratorOptions \<Rightarrow> (nat \<Rightarrow> render_env) \<Rightarrow> (nat list \<Rightarrow> nat list) \<Rightarrow>
   CertificateConfig list \<Rightarrow> batch_state option" where
  "generateCertificates rnd opts envs settle_order configs =
     process_chunks rnd opts envs settle_order configs (Num 0)
       \<lparr>successful = [], failed = [], trace = [BatchStarted (length configs)]\<rparr>"

section \<open>Observations on the events of a batch\<close>

text \<open>The number of renders started and not yet settled after a sequence of events.\<close>

fun outstanding :: "batch_event list \<Rightarrow> int" where
  "outstanding [] = 0"
| "outstanding (Launched j # evs) = outstanding evs + 1"
| "outstanding (Settled j # evs) = outstanding evs - 1"
| "outstanding (_ # evs) = outstanding evs"

text \<open>
  The groups of a sequence of events: the indices of the renders started between one
  progress line and the next, \<open>cur\<close> being those started since the last one.
\<close>

fun launched_groups :: "batch_event list \<Rightarrow> nat list \<Rightarrow> nat list list" where
  "launched_groups [] cur = []"
| "launched_groups (Launched j # evs) cur = launched_groups evs (cur @ [j])"
| "launched_groups (Progress v n # evs) cur = cur # launched_groups evs []"
| "launched_groups (_ # evs) cur = launched_groups evs cur"

text \<open>
  A group completes before the next starts: when the render of the item at index \<open>j\<close>
  starts, the renders of all the items before its group, of indices below
  \<open>(j div c) * c\<close>, have settled. \<open>sequenced_after\<close> states it for the events \<open>evs\<close> that
  follow the events \<open>pre\<close>.
\<close>

definition sequenced_after :: "nat \<Rightarrow> batch_event list \<Rightarrow> batch_event list \<Rightarrow> bool" where
  "sequenced_after c pre evs \<longleftrightarrow>
     (\<forall>p < length evs.
        case evs ! p of
          Launched j \<Rightarrow> \<forall>j' < (j div c) * c. Settled j' \<in> set (pre @ take p evs)
        | _ \<Rightarrow> True)"

definition groups_in_sequence :: "nat \<Rightarrow> batch_event list \<Rightarrow> bool" where
  "groups_in_sequence c tr \<longleftrightarrow> sequenced_after c [] tr"

text \<open>The events of the chunk of \<open>len\<close> items that starts at index \<open>i\<close>.\<close>

definition chunk_events ::
  "(nat list \<Rightarrow> nat list) \<Rightarrow> nat \<Rightarrow> nat \<Rightarrow> nat \<Rightarrow> nat \<Rightarrow> batch_event list" where
  "chunk_events settle_order c n i len =
     map Launched [i ..< i + len] @ map Settled (settle_order [i ..< i + len]) @
     [Progress (Num (real (min (i + c) n))) n]"

text \<open>The events of the chunks of \<open>c\<close> items from index \<open>i\<close> on, in a batch of \<open>n\<close> items.\<close>

function events_from :: "(nat list \<Rightarrow> nat list) \<Rightarrow> nat \<Rightarrow> nat \<Rightarrow> nat \<Rightarrow> batch_event list" where
  "events_from settle_order c n i =
     (if c = 0 \<or> n \<le> i then []
      else chunk_events settle_order c n i (min c (n - i)) @ events_from settle_order c n (i + c))"
  by pat_completeness auto
termination
  by (relation "measure (\<lambda>(settle_order, c, n, i). n - i)") auto

declare events_from.simps [simp del]

text \<open>The outcome of the render of the item at index \<open>j\<close>.\<close>

definition outcome ::
  "GeneratorOptions \<Rightarrow> (nat \<Rightarrow> render_env) \<Rightarrow> CertificateConfig list \<Rightarrow> nat \<Rightarrow> js_error + jsstring" where
  "outcome opts envs configs j = fst (generateCertificate opts (envs j) (configs ! j))"

text \<open>
  The paths of the renders that succeed and the failures of those that fail, among the
  items at the indices \<open>idxs\<close>.
\<close>

definition paths_of ::
  "GeneratorOptions \<Rightarrow> (nat \<Rightarrow> render_env) \<Rightarrow> CertificateConfig list \<Rightarrow> nat list \<Rightarrow> jsstring list" where
  "paths_of opts envs configs idxs =
     map (\<lambda>j. projr (outcome opts envs configs j))
       (filter (\<lambda>j. \<not> isl (outcome opts envs configs j)) idxs)"

definition failures_of ::
  "GeneratorOptions \<Rightarrow> (nat \<Rightarrow> render_env) \<Rightarrow> CertificateConfig list \<Rightarrow> nat list \<Rightarrow>
   (CertificateConfig \<times> js_error) list" where
  "failures_of opts envs configs idxs =
     map (\<lambda>j. (configs ! j, projl (outcome opts envs configs j)))
       (filter (\<lambda>j. isl (outcome opts envs configs j)) idxs)"

text \<open>
  In the words of the specification: the partition of a sequence into consecutive groups
  of at most \<open>c\<close> elements, in the order of the sequence.
\<close>

function chunk_list :: "nat \<Rightarrow> 'a list \<Rightarrow> 'a list list" where
  "chunk_list c xs = (if c = 0 \<or> xs = [] then [] else take c xs # chunk_list c (drop c xs))"
  by pat_completeness auto
termination
  by (relation "measure (\<lambda>(c, xs). length xs)") auto

declare chunk_list.simps [simp del]

section \<open>The conditions of the item validator\<close>

definition whitespace_only :: "jsstring \<Rightarrow> bool" where
  "whitespace_only s \<longleftrightarrow> (\<forall>c \<in> set s. is_whitespace c)"

text \<open>
  In the words of the specification: the name is empty or whitespace-only; a font size
  override is present and outside [1, 200]; the mode is production and the email is
  missing or empty after trimming.
\<close>

definition claimed_invalid :: "GeneratorOptions \<Rightarrow> CertificateConfig \<Rightarrow> bool" where
  "claimed_invalid opts c \<longleftrightarrow>
     whitespace_only (name c) \<or>
     (case fontSize c of None \<Rightarrow> False | Some n \<Rightarrow> \<not> (js_le (Num 1) n \<and> js_le n (Num 200))) \<or>
     (mode opts = Production \<and> (case email c of None \<Rightarrow> True | Some e \<Rightarrow> trim e = []))"

text \<open>The same, with a font size override of 0 or \<open>NaN\<close> counted as absent.\<close>

definition invalid_item :: "GeneratorOptions \<Rightarrow> CertificateConfig \<Rightarrow> bool" where
  "invalid_item opts c \<longleftrightarrow>
     whitespace_only (name c) \<or>
     (case fontSize c of None \<Rightarrow> False
      | Some n \<Rightarrow> truthy_num n \<and> \<not> (js_le (Num 1) n \<and> js_le n (Num 200))) \<or>
     (mode opts = Production \<and> (case email c of None \<Rightarrow> True | Some e \<Rightarrow> trim e = []))"

section \<open>Concrete inputs\<close>

text \<open>The options and the items of the scenario of the specification.\<close>

definition example_options :: GeneratorOptions where
  "example_options =
     \<lparr>templatePath = js ''assets/certificate-template.pdf'', fontPath = js ''assets/font.ttf'',
      outputDir = js ''/out'', defaultFontSize = Num 54,
      defaultFontColor = \<lparr>rgb_r = Num 93, rgb_g = Num 97, rgb_b = Num 103\<rparr>,
      concurrency = Num 2, mode = Production, testName = None\<rparr>"

definition example_test_options :: GeneratorOptions where
  "example_test_options = example_options\<lparr>mode := Test, testName := Some (js ''Demo User'')\<rparr>"

definition item :: "string \<Rightarrow> string option \<Rightarrow> CertificateConfig" where
  "item n e =
     \<lparr>name = js n, email = map_option js e, outputPath = None, fontSize = None,
      fontColor = None, position = None\<rparr>"

definition example_now :: jsstring where
  "example_now = js ''2024-05-17T10:20:30.000Z''"

text \<open>An outside where every call succeeds, on a template of one A4 landscape page.\<close>

definition example_env :: render_env where
  "example_env =
     \<lparr>env_round = exact_rounding, env_join = join_plain, env_now = example_now,
      load_pages = Inr [Some \<lparr>getWidth = Num 842, getHeight = Num 595\<rparr>],
      embedFont_throws = None, drawText_throws = None, ensureDir_throws = None,
      save_throws = None, writeFile_throws = None\<rparr>"

definition example_batch :: "CertificateConfig list" where
  "example_batch =
     [item ''Ada Lovelace'' (Some ''ada@x.com''), item [] (Some ''b@x.com''),
      item ''Grace Hopper'' (Some ''grace@x.com'')]"

text \<open>A value thrown by the file system, outside the error classes of the repository.\<close>

definition disk_full :: js_error where
  "disk_full =
     JsError ForeignError (js ''Error'') (js ''ENOSPC: no space left on device, write'') None"

section \<open>Properties of the sanitizer\<close>

lemma underscore_not_alnum: "\<not> is_alnum underscore"
  by (simp add: is_alnum_def underscore_def)

lemma underscore_not_lower_alnum: "\<not> is_lower_alnum underscore"
  by (simp add: is_lower_alnum_def underscore_def)

lemma lower_alnum_is_alnum: "is_lower_alnum c \<Longrightarrow> is_alnum c"
  by (auto simp: is_lower_alnum_def is_alnum_def)

lemma unat_add_32: "unat (c::code_unit) \<le> 90 \<Longrightarrow> unat (c + 0x20) = unat c + 32"
  using unat_add_lem[of c "0x20"] by simp

lemma toLowerCase_unit_underscore: "toLowerCase_unit underscore = underscore"
  by (simp add: toLowerCase_unit_def underscore_def)

lemma toLowerCase_unit_alnum: "is_alnum c \<Longrightarrow> is_lower_alnum (toLowerCase_unit c)"
  by (auto simp: is_alnum_def is_lower_alnum_def toLowerCase_unit_def word_le_nat_alt unat_add_32)

lemma toLowerCase_unit_lower: "is_lower_alnum c \<Longrightarrow> toLowerCase_unit c = c"
  by (auto simp: is_lower_alnum_def toLowerCase_unit_def word_le_nat_alt)

lemma replace_non_alnum_ascii:
  "c \<in> set (replace_non_alnum s) \<Longrightarrow> is_alnum c \<or> c = underscore"
  by (auto simp: replace_non_alnum_def)

lemma lowered_units:
  "c \<in> set (toLowerCase (replace_non_alnum s)) \<Longrightarrow> is_lower_alnum c \<or> c = underscore"
  by (auto simp: toLowerCase_def replace_non_alnum_def toLowerCase_unit_alnum
      toLowerCase_unit_underscore)

lemma set_collapse_underscores: "set (collapse_underscores s) \<subseteq> set s"
proof (induction s rule: collapse_underscores.induct)
  case 1
  then show ?case by simp
next
  case (2 c cs)
  show ?case
  proof (cases "c = underscore")
    case True
    have "set (dropWhile (\<lambda>d. d = underscore) cs) \<subseteq> set cs"
      by (auto dest: set_dropWhileD)
    with 2 True show ?thesis by auto
  next
    case False
    with 2 show ?thesis by auto
  qed
qed

lemma hd_collapse_underscores:
  "s \<noteq> [] \<Longrightarrow> collapse_underscores s \<noteq> [] \<and> hd (collapse_underscores s) = hd s"
  by (cases s) auto

lemma dropWhile_hd: "dropWhile P xs = y # ys \<Longrightarrow> \<not> P y"
  by (metis hd_dropWhile list.sel(1) list.distinct(1))

lemma no_adjacent_Cons:
  "no_adjacent_underscores (a # s) \<longleftrightarrow>
     no_adjacent_underscores s \<and> (s \<noteq> [] \<longrightarrow> \<not> (a = underscore \<and> hd s = underscore))"
  by (cases s) auto

lemma no_adjacent_collapse: "no_adjacent_underscores (collapse_underscores s)"
proof (induction s rule: collapse_underscores.induct)
  case 1
  then show ?case by simp
next
  case (2 c cs)
  show ?case
  proof (cases "c = underscore")
    case True
    let ?r = "dropWhile (\<lambda>d. d = underscore) cs"
    have "?r \<noteq> [] \<Longrightarrow> hd ?r \<noteq> underscore"
      using hd_dropWhile[of "\<lambda>d. d = underscore" cs] by simp
    then have "collapse_underscores ?r \<noteq> [] \<Longrightarrow> hd (collapse_underscores ?r) \<noteq> underscore"
      using hd_collapse_underscores[of ?r] by (cases ?r) auto
    with 2 True show ?thesis by (simp add: no_adjacent_Cons)
  next
    case False
    with 2 show ?thesis by (simp add: no_adjacent_Cons)
  qed
qed

lemma no_adjacent_append:
  "no_adjacent_underscores (xs @ ys) \<longleftrightarrow>
     no_adjacent_underscores xs \<and> no_adjacent_underscores ys \<and>
     (xs \<noteq> [] \<and> ys \<noteq> [] \<longrightarrow> \<not> (last xs = underscore \<and> hd ys = underscore))"
proof (induction xs)
  case Nil
  then show ?case by simp
next
  case (Cons a xs)
  then show ?case by (cases xs) (auto simp: no_adjacent_Cons)
qed

lemma no_adjacent_rev: "no_adjacent_underscores (rev s) = no_adjacent_underscores s"
  by (induction s) (auto simp: no_adjacent_append no_adjacent_Cons hd_rev last_rev)

lemma collapse_runs_eq: "collapse_runs s = collapse_underscores s"
  by (induction s rule: collapse_runs.induct) auto

lemma dropWhile_no_adjacent:
  "no_adjacent_underscores s \<Longrightarrow>
   dropWhile (\<lambda>d. d = underscore) s = (case s of [] \<Rightarrow> [] | c # cs \<Rightarrow> if c = underscore then cs else s)"
  by (cases s; cases "tl s") (auto simp: no_adjacent_Cons)

lemma no_adjacent_tl: "no_adjacent_underscores s \<Longrightarrow> no_adjacent_underscores (tl s)"
  by (cases s) (auto simp: no_adjacent_Cons)

lemma rev_dropWhile_no_adjacent:
  assumes "no_adjacent_underscores t"
  shows "rev (dropWhile (\<lambda>d. d = underscore) (rev t)) =
         (if t \<noteq> [] \<and> last t = underscore then butlast t else t)"
proof (cases "t = []")
  case True
  then show ?thesis by simp
next
  case False
  have na: "no_adjacent_underscores (rev t)"
    using assms by (simp add: no_adjacent_rev)
  from False have "rev t \<noteq> []" by simp
  then obtain a r where ar: "rev t = a # r" by (cases "rev t") auto
  then have t: "t = rev r @ [a]" by (metis rev.simps(2) rev_rev_ident)
  show ?thesis
  proof (cases "a = underscore")
    case True
    from na ar True have "dropWhile (\<lambda>d. d = underscore) (rev t) = r"
      using dropWhile_no_adjacent[of "a # r"] by simp
    with t True show ?thesis by simp
  next
    case False
    with ar t show ?thesis by simp
  qed
qed

lemma strip_underscores_eq:
  assumes "no_adjacent_underscores s"
  shows "strip_underscores s = strip_edge_underscores s"
proof -
  let ?t = "case s of [] \<Rightarrow> [] | c # cs \<Rightarrow> if c = underscore then cs else s"
  have d: "dropWhile (\<lambda>d. d = underscore) s = ?t"
    using assms by (rule dropWhile_no_adjacent)
  have "no_adjacent_underscores ?t"
    using assms by (cases s) (auto simp: no_adjacent_Cons)
  then have "rev (dropWhile (\<lambda>d. d = underscore) (rev ?t)) =
      (if ?t \<noteq> [] \<and> last ?t = underscore then butlast ?t else ?t)"
    by (rule rev_dropWhile_no_adjacent)
  with d show ?thesis
    by (simp add: strip_underscores_def strip_edge_underscores_def Let_def)
qed

lemma sanitize_rule_eq: "sanitizeFilename s = sanitize_rule s"
  by (simp add: sanitizeFilename_def sanitize_rule_def collapse_runs_eq
      strip_underscores_eq no_adjacent_collapse toLowerCase_def replace_non_alnum_def)

lemma set_strip_underscores: "set (strip_underscores s) \<subseteq> set s"
  by (auto simp: strip_underscores_def dest!: set_dropWhileD)

lemma no_adjacent_dropWhile:
  "no_adjacent_underscores s \<Longrightarrow> no_adjacent_underscores (dropWhile P s)"
  by (induction s) (auto simp: no_adjacent_Cons)

lemma no_adjacent_strip:
  "no_adjacent_underscores s \<Longrightarrow> no_adjacent_underscores (strip_underscores s)"
  by (simp add: strip_underscores_def no_adjacent_rev no_adjacent_dropWhile)

lemma rev_dropWhile_rev_take:
  "rev (dropWhile P (rev xs)) = take (length xs - length (takeWhile P (rev xs))) xs"
  by (simp add: dropWhile_eq_drop rev_drop)

lemma hd_strip_underscores:
  assumes "strip_underscores s \<noteq> []"
  shows "hd (strip_underscores s) \<noteq> underscore"
proof -
  let ?d = "dropWhile (\<lambda>d. d = underscore) s"
  obtain n where n: "strip_underscores s = take n ?d"
    unfolding strip_underscores_def using rev_dropWhile_rev_take by blast
  with assms have "?d \<noteq> []" and "0 < n" by (auto intro: Nat.gr0I)
  then have "hd (take n ?d) = hd ?d" and "hd ?d \<noteq> underscore"
    using hd_dropWhile[of "\<lambda>d. d = underscore" s] by (simp_all add: hd_take)
  with n show ?thesis by simp
qed

lemma last_strip_underscores:
  "strip_underscores s \<noteq> [] \<Longrightarrow> last (strip_underscores s) \<noteq> underscore"
proof -
  let ?d = "dropWhile (\<lambda>d. d = underscore) s"
  let ?e = "dropWhile (\<lambda>d. d = underscore) (rev ?d)"
  assume "strip_underscores s \<noteq> []"
  then have e: "?e \<noteq> []" by (simp add: strip_underscores_def)
  then have "hd ?e \<noteq> underscore"
    using hd_dropWhile[of "\<lambda>d. d = underscore" "rev ?d"] by simp
  with e show ?thesis
    by (simp add: strip_underscores_def last_rev)
qed

lemma sanitize_safe: "filename_safe (sanitizeFilename s)"
proof -
  let ?l = "collapse_underscores (toLowerCase (replace_non_alnum s))"
  have eq: "sanitizeFilename s = strip_underscores ?l"
    by (simp add: sanitizeFilename_def strip_underscores_eq no_adjacent_collapse)
  have "set (strip_underscores ?l) \<subseteq> set (toLowerCase (replace_non_alnum s))"
    using set_strip_underscores[of ?l] set_collapse_underscores[of "toLowerCase (replace_non_alnum s)"]
    by blast
  then have units: "\<forall>c \<in> set (strip_underscores ?l). is_lower_alnum c \<or> c = underscore"
    using lowered_units by blast
  have "no_adjacent_underscores (strip_underscores ?l)"
    by (simp add: no_adjacent_strip no_adjacent_collapse)
  with units show ?thesis
    unfolding filename_safe_def eq
    using hd_strip_underscores[of ?l] last_strip_underscores[of ?l] by blast
qed

lemma collapse_no_adjacent_id:
  "no_adjacent_underscores s \<Longrightarrow> collapse_underscores s = s"
proof (induction s)
  case Nil
  then show ?case by simp
next
  case (Cons a s)
  then show ?case by (cases s) (auto simp: no_adjacent_Cons)
qed

lemma sanitize_safe_id:
  assumes "filename_safe s"
  shows "sanitizeFilename s = s"
proof -
  from assms have units: "\<forall>c \<in> set s. is_lower_alnum c \<or> c = underscore"
    and na: "no_adjacent_underscores s"
    and edges: "s \<noteq> [] \<longrightarrow> hd s \<noteq> underscore \<and> last s \<noteq> underscore"
    by (simp_all add: filename_safe_def)
  have r: "replace_non_alnum s = s"
    unfolding replace_non_alnum_def
    using units by (intro map_idI) (auto simp: lower_alnum_is_alnum)
  have l: "toLowerCase s = s"
    unfolding toLowerCase_def
    using units by (intro map_idI) (auto simp: toLowerCase_unit_lower toLowerCase_unit_underscore)
  have c: "collapse_underscores s = s"
    using na by (rule collapse_no_adjacent_id)
  have "strip_edge_underscores s = s"
    using edges by (cases s) (auto simp: strip_edge_underscores_def)
  with r l c show ?thesis by (simp add: sanitizeFilename_def)
qed

lemmas sanitize_eval = sanitizeFilename_def sanitize_rule_def strip_edge_underscores_def
  strip_underscores_def toLowerCase_def replace_non_alnum_def is_alnum_def is_lower_alnum_def
  toLowerCase_unit_def underscore_def filename_safe_def js_def

text \<open>
  C6: for every input string the sanitizer returns what the rule of the specification
  gives (replace every character outside \<open>[A-Za-z0-9]\<close> with an underscore, lowercase,
  collapse the runs of underscores, strip the leading and trailing underscores), and the
  result consists of lowercase letters, digits and single underscores, with no underscore
  at either end.
\<close>

theorem sanitizeFilename_rule:
  "sanitizeFilename s = sanitize_rule s \<and> filename_safe (sanitizeFilename s)"
  using sanitize_rule_eq[of s] sanitize_safe[of s] by blast

theorem sanitizeFilename_rule_witness:
  "sanitizeFilename (js ''__Ada  Lovelace!'') = js ''ada_lovelace'' \<and>
   sanitize_rule (js ''__Ada  Lovelace!'') = js ''ada_lovelace'' \<and>
   filename_safe (js ''ada_lovelace'')"
  using sanitizeFilename_rule[of "js ''__Ada  Lovelace!''"]
  by (simp add: sanitize_eval)

text \<open>
  C10: the sanitizer is idempotent: sanitizing a sanitized filename again does not
  change it.
\<close>

theorem sanitizeFilename_idempotent:
  "sanitizeFilename (sanitizeFilename s) = sanitizeFilename s"
  by (rule sanitize_safe_id) (rule sanitize_safe)

theorem sanitizeFilename_idempotent_witness:
  "sanitizeFilename (js ''a@@x.COM'') = js ''a_x_com'' \<and>
   sanitizeFilename (js ''a_x_com'') = js ''a_x_com''"
  using sanitizeFilename_idempotent[of "js ''a@@x.COM''"]
  by (simp add: sanitize_eval)

section \<open>Properties of the per-item functions\<close>

lemma dropWhile_all_iff:
  "(\<forall>c \<in> set (dropWhile P s). P c) \<longleftrightarrow> (\<forall>c \<in> set s. P c)"
proof
  assume all: "\<forall>c \<in> set (dropWhile P s). P c"
  have "dropWhile P s = []"
  proof (rule ccontr)
    assume ne: "dropWhile P s \<noteq> []"
    then have "\<not> P (hd (dropWhile P s))" by (rule hd_dropWhile)
    moreover from ne have "hd (dropWhile P s) \<in> set (dropWhile P s)" by simp
    ultimately show False using all by blast
  qed
  then show "\<forall>c \<in> set s. P c" by (simp only: dropWhile_eq_Nil_conv)
next
  assume "\<forall>c \<in> set s. P c"
  then show "\<forall>c \<in> set (dropWhile P s). P c" by (auto dest: set_dropWhileD)
qed

lemma trim_empty_iff: "length (trim s) = 0 \<longleftrightarrow> (\<forall>c \<in> set s. is_whitespace c)"
proof -
  have "trim s = [] \<longleftrightarrow> (\<forall>c \<in> set (dropWhile is_whitespace s). is_whitespace c)"
    by (simp add: trim_def)
  then show ?thesis by (simp add: dropWhile_all_iff)
qed

lemma trim_Nil_iff: "trim s = [] \<longleftrightarrow> whitespace_only s"
  using trim_empty_iff[of s] by (simp add: whitespace_only_def)

lemma validate_cases:
  "validateCertificateConfig opts c = Inr () \<or>
   (\<exists>msg. validateCertificateConfig opts c = Inl (new_InvalidConfigError msg))"
  unfolding validateCertificateConfig_def by auto

lemma font_size_check:
  assumes "\<forall>r. n = Num r \<longrightarrow> r \<le> 0 \<or> 1 \<le> r"
  shows "(truthy_num n \<and> (js_le n (Num 0) \<or> js_gt n (Num 200))) \<longleftrightarrow>
         (truthy_num n \<and> \<not> (js_le (Num 1) n \<and> js_le n (Num 200)))"
  using assms by (cases n) auto

lemma validate_ok_iff:
  assumes "\<forall>r. fontSize c = Some (Num r) \<longrightarrow> r \<le> 0 \<or> 1 \<le> r"
  shows "validateCertificateConfig opts c = Inr () \<longleftrightarrow> \<not> invalid_item opts c"
proof -
  have e: "\<And>e. (\<not> truthy_string e \<or> length (trim e) = 0) \<longleftrightarrow> trim e = []"
    by (auto simp: truthy_string_def trim_def)
  have f: "\<And>n. fontSize c = Some n \<Longrightarrow>
      (truthy_num n \<and> (js_le n (Num 0) \<or> js_gt n (Num 200))) \<longleftrightarrow>
      (truthy_num n \<and> \<not> (js_le (Num 1) n \<and> js_le n (Num 200)))"
    using assms by (intro font_size_check) auto
  show ?thesis
    unfolding validateCertificateConfig_def invalid_item_def e trim_Nil_iff[symmetric]
    using f by (auto split: option.splits)
qed

text \<open>
  C3, as amended: for every item whose font size override, if present, is not strictly
  between 0 and 1, the validation fails, with an \<open>InvalidConfigError\<close>, if and only if the
  name is empty or whitespace-only, or a font size override is present, is neither 0 nor
  \<open>NaN\<close> and lies outside [1, 200], or the mode is production and the email is missing
  or empty after trimming. The validation returns nothing but its verdict, and when it
  fails the render has made no call to the outside.
\<close>

theorem validateCertificateConfig_contract:
  assumes "\<forall>r. fontSize c = Some (Num r) \<longrightarrow> r \<le> 0 \<or> 1 \<le> r"
  shows "((\<exists>msg. validateCertificateConfig opts c = Inl (new_InvalidConfigError msg)) \<longleftrightarrow>
            invalid_item opts c) \<and>
         (validateCertificateConfig opts c = Inr () \<longleftrightarrow> \<not> invalid_item opts c) \<and>
         (\<forall>e. validateCertificateConfig opts c = Inl e \<longrightarrow>
            generateCertificate opts env c = (Inl e, []))"
proof -
  have ok: "validateCertificateConfig opts c = Inr () \<longleftrightarrow> \<not> invalid_item opts c"
    using assms by (rule validate_ok_iff)
  have "(\<exists>msg. validateCertificateConfig opts c = Inl (new_InvalidConfigError msg)) \<longleftrightarrow>
      validateCertificateConfig opts c \<noteq> Inr ()"
    using validate_cases[of opts c] by auto
  with ok show ?thesis by (auto simp: generateCertificate_def)
qed

lemmas eval_defs = js_def item_def example_options_def example_test_options_def
  validateCertificateConfig_def truthy_string_def trim_def is_whitespace_def
  new_InvalidConfigError_def invalid_item_def claimed_invalid_def whitespace_only_def

theorem validateCertificateConfig_contract_witness:
  "validateCertificateConfig example_options
     ((item ''Ada Lovelace'' (Some ''ada@x.com''))\<lparr>fontSize := Some (Num 250)\<rparr>) =
     Inl (new_InvalidConfigError (js ''Font size must be between 1 and 200'')) \<and>
   invalid_item example_options
     ((item ''Ada Lovelace'' (Some ''ada@x.com''))\<lparr>fontSize := Some (Num 250)\<rparr>) \<and>
   validateCertificateConfig example_options
     ((item ''Ada Lovelace'' (Some ''ada@x.com''))\<lparr>fontSize := Some (Num 54)\<rparr>) = Inr () \<and>
   \<not> invalid_item example_options
     ((item ''Ada Lovelace'' (Some ''ada@x.com''))\<lparr>fontSize := Some (Num 54)\<rparr>)"
  using validateCertificateConfig_contract[of
      "(item ''Ada Lovelace'' (Some ''ada@x.com''))\<lparr>fontSize := Some (Num 250)\<rparr>" example_options]
    validateCertificateConfig_contract[of
      "(item ''Ada Lovelace'' (Some ''ada@x.com''))\<lparr>fontSize := Some (Num 54)\<rparr>" example_options]
  by (simp add: eval_defs)

text \<open>
  C3 as stated fails: a font size override of 0 is present and outside [1, 200], and the
  item passes the validation.
\<close>

theorem zero_font_size_accepted:
  "claimed_invalid example_test_options ((item ''Ada'' None)\<lparr>fontSize := Some (Num 0)\<rparr>) \<and>
   validateCertificateConfig example_test_options ((item ''Ada'' None)\<lparr>fontSize := Some (Num 0)\<rparr>) = Inr ()"
  by (simp add: eval_defs)

lemma round_to_not_NaN: "round_to rnd r \<noteq> NaN"
  by (simp add: round_to_def split: option.splits)

lemma js_le_zero_max: "v \<noteq> NaN \<Longrightarrow> js_le (Num 0) (Math_max (Num 0) v)"
  by (cases v) (auto simp: Math_max_def)

lemma text_width_not_NaN:
  "js_mul rnd (round_to rnd r) literal_0_6 \<noteq> NaN"
  by (cases "rnd r") (auto simp: round_to_def literal_0_6_def split: option.splits)

lemma js_sub_Num_not_NaN: "b \<noteq> NaN \<Longrightarrow> js_sub rnd (Num a) b \<noteq> NaN"
  by (cases b) (auto simp: round_to_not_NaN)

lemma js_div_lit_not_NaN: "a \<noteq> NaN \<Longrightarrow> js_div_lit rnd a d \<noteq> NaN"
  by (cases a) (auto simp: round_to_not_NaN)

lemma js_mul_NaN_right: "js_mul rnd a NaN = NaN"
  by (cases a) auto

lemma js_sub_NaN_right: "js_sub rnd a NaN = NaN"
  by (cases a) auto

text \<open>
  C4, as amended: an explicit position is returned unchanged; otherwise the position is
  \<open>x = Math.max(0, (pageWidth - text.length * fontSize * 0.6) / 2)\<close> and
  \<open>y = pageHeight / 2 - fontSize / 2\<close> in the arithmetic of doubles, whatever its
  rounding; the computation always returns; \<open>x \<ge> 0\<close> whenever the font size and the page
  width are finite, and \<open>x\<close> is \<open>NaN\<close> whenever one of the two is \<open>NaN\<close>.
\<close>

theorem calculateTextPosition_placement:
  "calculateTextPosition rnd t f w h (Some p) = p \<and>
   calculateTextPosition rnd t f w h None =
     \<lparr>pos_x = Math_max (Num 0)
        (js_div_lit rnd
          (js_sub rnd w (js_mul rnd (js_mul rnd (Num (real (length t))) f) literal_0_6)) 2),
      pos_y = js_sub rnd (js_div_lit rnd h 2) (js_div_lit rnd f 2)\<rparr> \<and>
   js_le (Num 0) (pos_x (calculateTextPosition rnd t (Num fr) (Num wr) h None)) \<and>
   pos_x (calculateTextPosition rnd t NaN w h None) = NaN \<and>
   pos_x (calculateTextPosition rnd t f NaN h None) = NaN"
proof -
  have "js_le (Num 0) (pos_x (calculateTextPosition rnd t (Num fr) (Num wr) h None))"
    by (simp add: calculateTextPosition_def Let_def js_le_zero_max js_div_lit_not_NaN
        js_sub_Num_not_NaN text_width_not_NaN)
  moreover have "pos_x (calculateTextPosition rnd t NaN w h None) = NaN"
    by (simp add: calculateTextPosition_def Let_def js_sub_NaN_right Math_max_def)
  moreover have "pos_x (calculateTextPosition rnd t f NaN h None) = NaN"
    by (simp add: calculateTextPosition_def Let_def Math_max_def)
  ultimately show ?thesis by (simp add: calculateTextPosition_def Let_def)
qed

text \<open>
  C4 as stated fails: with a font size of \<open>NaN\<close> the returned \<open>x\<close> is \<open>NaN\<close>, and
  \<open>0 \<le> NaN\<close> is false.
\<close>

theorem calculateTextPosition_NaN:
  "\<not> js_le (Num 0)
       (pos_x (calculateTextPosition exact_rounding (js ''Ada'') NaN (Num 842) (Num 595) None))"
  by (simp add: calculateTextPosition_def Let_def Math_max_def)

text \<open>
  C5: for every item without an output path override, the resolved path is \<open>path.join\<close>
  of the output directory and the sanitized name, then, when the mode is production and
  the item has an email, an underscore and the sanitized email, then an underscore, the
  date and \<open>.pdf\<close>; the date is the first ten characters of the ISO timestamp of the
  call, not a field of the item. The item is one that has passed the validation, as every
  item has when its path is resolved, or one whose email is not the empty string.
\<close>

theorem generateOutputPath_derived:
  assumes "outputPath c = None"
    and "validateCertificateConfig opts c = Inr () \<or> email c \<noteq> Some []"
    and "now_iso = date @ time" and "length date = 10"
  shows "generateOutputPath path_join now_iso opts c =
     path_join (outputDir opts)
       (sanitizeFilename (name c) @
        (case email c of
           Some e \<Rightarrow> if mode opts = Production then js ''_'' @ sanitizeFilename e else []
         | None \<Rightarrow> []) @
        js ''_'' @ date @ js ''.pdf'')"
proof -
  have "truthy_string e" if "email c = Some e" and "mode opts = Production" for e
    using assms(2)
  proof
    assume "validateCertificateConfig opts c = Inr ()"
    with that show ?thesis
      by (auto simp: validateCertificateConfig_def split: if_splits)
  next
    assume "email c \<noteq> Some []"
    with that show ?thesis by (auto simp: truthy_string_def)
  qed
  then show ?thesis
    using assms(1,3,4) by (auto simp: generateOutputPath_def Let_def split: option.splits)
qed

lemmas path_defs = generateOutputPath_def sanitizeFilename_def strip_edge_underscores_def
  toLowerCase_def replace_non_alnum_def is_alnum_def toLowerCase_unit_def underscore_def
  join_plain_def example_now_def

theorem generateOutputPath_derived_witness:
  "generateOutputPath join_plain example_now example_options
     (item ''Ada Lovelace'' (Some ''ada@x.com'')) =
   js ''/out/ada_lovelace_ada_x_com_2024-05-17.pdf''"
  using generateOutputPath_derived[of "item ''Ada Lovelace'' (Some ''ada@x.com'')" example_options
      example_now "js ''2024-05-17''" "js ''T10:20:30.000Z''" join_plain]
  by (simp add: eval_defs path_defs)

text \<open>
  C7, as amended: for every item whose \<open>outputPath\<close> is set to a non-empty string, the
  resolved path is exactly that string, whatever the name, the email, the mode, the
  output directory and the date.
\<close>

theorem generateOutputPath_override:
  assumes "outputPath c = Some p" and "p \<noteq> []"
  shows "generateOutputPath path_join now_iso opts c = p"
  using assms by (simp add: generateOutputPath_def truthy_string_def)

theorem generateOutputPath_override_witness:
  "generateOutputPath join_plain example_now example_options
     ((item ''Ada Lovelace'' None)\<lparr>outputPath := Some (js ''certs/Ada L.pdf'')\<rparr>) =
   js ''certs/Ada L.pdf''"
  using generateOutputPath_override[of "(item ''Ada Lovelace'' None)\<lparr>outputPath := Some (js ''certs/Ada L.pdf'')\<rparr>"
      "js ''certs/Ada L.pdf''" join_plain example_now example_options]
  by (simp add: item_def js_def)

text \<open>
  C7 as stated fails: an \<open>outputPath\<close> set to the empty string is not returned; the path
  is derived from the name.
\<close>

theorem generateOutputPath_empty_override:
  "outputPath ((item ''Ada'' None)\<lparr>outputPath := Some []\<rparr>) = Some [] \<and>
   generateOutputPath join_plain example_now example_test_options
     ((item ''Ada'' None)\<lparr>outputPath := Some []\<rparr>) = js ''/out/ada_2024-05-17.pdf'' \<and>
   js ''/out/ada_2024-05-17.pdf'' \<noteq> []"
  by (simp add: eval_defs path_defs)

section \<open>Properties of the single-item render\<close>

lemma validate_error_instance:
  "validateCertificateConfig opts c = Inl e \<Longrightarrow> instanceof_CertificateGeneratorError e"
  by (auto simp: validateCertificateConfig_def new_InvalidConfigError_def
      instanceof_CertificateGeneratorError_def split: if_splits)

lemma catch_block_instance: "instanceof_CertificateGeneratorError (catch_block c e)"
  by (simp add: catch_block_def Let_def new_CertificateGeneratorError_def
      instanceof_CertificateGeneratorError_def)

lemma generateCertificate_error_instance:
  assumes "fst (generateCertificate opts env c) = Inl err"
  shows "instanceof_CertificateGeneratorError err"
proof (cases "validateCertificateConfig opts c")
  case (Inl e)
  with assms have "err = e" by (simp add: generateCertificate_def)
  with Inl show ?thesis by (simp add: validate_error_instance)
next
  case (Inr u)
  obtain r effs where t: "try_block opts env c = (r, effs)" by (cases "try_block opts env c")
  show ?thesis
  proof (cases r)
    case (Inl e)
    with Inr t assms have "err = catch_block c e" by (simp add: generateCertificate_def)
    then show ?thesis by (simp add: catch_block_instance)
  next
    case (Inr p)
    with \<open>validateCertificateConfig opts c = Inr u\<close> t assms show ?thesis
      by (simp add: generateCertificate_def)
  qed
qed

lemma generateCertificate_caught:
  assumes "validateCertificateConfig opts c = Inr ()" and "fst (try_block opts env c) = Inl e"
  shows "fst (generateCertificate opts env c) = Inl (catch_block c e)"
  using assms by (cases "try_block opts env c") (simp add: generateCertificate_def)

lemma try_block_load: "load_pages env = Inl e \<Longrightarrow> fst (try_block opts env c) = Inl e"
  by (simp add: try_block_def)

lemma try_block_embedFont:
  "load_pages env = Inr (Some pg # pgs) \<Longrightarrow> embedFont_throws env = Some e \<Longrightarrow>
   fst (try_block opts env c) = Inl e"
  by (simp add: try_block_def Let_def)

lemma try_block_drawText:
  "load_pages env = Inr (Some pg # pgs) \<Longrightarrow> embedFont_throws env = None \<Longrightarrow>
   drawText_throws env = Some e \<Longrightarrow> fst (try_block opts env c) = Inl e"
  by (simp add: try_block_def Let_def)

lemma try_block_ensureDir:
  "load_pages env = Inr (Some pg # pgs) \<Longrightarrow> embedFont_throws env = None \<Longrightarrow>
   drawText_throws env = None \<Longrightarrow> ensureDir_throws env = Some e \<Longrightarrow>
   fst (try_block opts env c) = Inl e"
  by (simp add: try_block_def Let_def)

lemma try_block_save:
  "load_pages env = Inr (Some pg # pgs) \<Longrightarrow> embedFont_throws env = None \<Longrightarrow>
   drawText_throws env = None \<Longrightarrow> ensureDir_throws env = None \<Longrightarrow> save_throws env = Some e \<Longrightarrow>
   fst (try_block opts env c) = Inl e"
  by (simp add: try_block_def Let_def)

lemma try_block_writeFile:
  "load_pages env = Inr (Some pg # pgs) \<Longrightarrow> embedFont_throws env = None \<Longrightarrow>
   drawText_throws env = None \<Longrightarrow> ensureDir_throws env = None \<Longrightarrow> save_throws env = None \<Longrightarrow>
   writeFile_throws env = Some e \<Longrightarrow> fst (try_block opts env c) = Inl e"
  by (simp add: try_block_def Let_def)

text \<open>
  C8, as amended: every error that leaves the single-item render is an instance of
  \<open>CertificateGeneratorError\<close>; a validation error leaves it unchanged; a value thrown in
  the \<open>try\<close> block leaves it unchanged when it is such an instance already, and otherwise
  wrapped once, in a \<open>CertificateGeneratorError\<close> whose message ends with the name of
  the item and whose cause is the value thrown.
\<close>

theorem generateCertificate_failure_policy:
  "(\<forall>err. fst (generateCertificate opts env c) = Inl err \<longrightarrow>
      instanceof_CertificateGeneratorError err) \<and>
   (\<forall>e. validateCertificateConfig opts c = Inl e \<longrightarrow>
      fst (generateCertificate opts env c) = Inl e) \<and>
   (\<forall>e. validateCertificateConfig opts c = Inr () \<and> fst (try_block opts env c) = Inl e \<longrightarrow>
      fst (generateCertificate opts env c) =
        Inl (if instanceof_CertificateGeneratorError e then e
             else JsError CertificateGeneratorError (js ''CertificateGeneratorError'')
                    (js ''Failed to generate certificate for: '' @ name c) (Some e)))"
proof (intro conjI allI impI)
  fix err assume "fst (generateCertificate opts env c) = Inl err"
  then show "instanceof_CertificateGeneratorError err"
    by (rule generateCertificate_error_instance)
next
  fix e assume "validateCertificateConfig opts c = Inl e"
  then show "fst (generateCertificate opts env c) = Inl e"
    by (simp add: generateCertificate_def)
next
  fix e assume a: "validateCertificateConfig opts c = Inr () \<and> fst (try_block opts env c) = Inl e"
  then have "fst (generateCertificate opts env c) = Inl (catch_block c e)"
    by (simp add: generateCertificate_caught)
  then show "fst (generateCertificate opts env c) =
        Inl (if instanceof_CertificateGeneratorError e then e
             else JsError CertificateGeneratorError (js ''CertificateGeneratorError'')
                    (js ''Failed to generate certificate for: '' @ name c) (Some e))"
    by (simp add: catch_block_def Let_def new_CertificateGeneratorError_def)
qed

lemma validate_ada_test: "validateCertificateConfig example_test_options (item ''Ada'' e) = Inr ()"
  by (simp add: eval_defs)

lemma try_block_disk_full:
  "fst (try_block opts (example_env\<lparr>writeFile_throws := Some disk_full\<rparr>) c) = Inl disk_full"
  by (rule try_block_writeFile[where pg = "\<lparr>getWidth = Num 842, getHeight = Num 595\<rparr>" and pgs = "[]"])
    (simp_all add: example_env_def)

lemma disk_full_foreign: "\<not> instanceof_CertificateGeneratorError disk_full"
  by (simp add: disk_full_def instanceof_CertificateGeneratorError_def)

lemma name_item: "name (item n e) = js n"
  by (simp add: item_def)

theorem generateCertificate_failure_policy_witness:
  "validateCertificateConfig example_test_options (item ''Ada'' None) = Inr () \<and>
   fst (try_block example_test_options (example_env\<lparr>writeFile_throws := Some disk_full\<rparr>)
         (item ''Ada'' None)) = Inl disk_full \<and>
   fst (generateCertificate example_test_options (example_env\<lparr>writeFile_throws := Some disk_full\<rparr>)
         (item ''Ada'' None)) =
     Inl (JsError CertificateGeneratorError (js ''CertificateGeneratorError'')
            (js ''Failed to generate certificate for: '' @ js ''Ada'') (Some disk_full))"
  using generateCertificate_failure_policy[of example_test_options
      "example_env\<lparr>writeFile_throws := Some disk_full\<rparr>" "item ''Ada'' None"]
  by (simp add: validate_ada_test try_block_disk_full disk_full_foreign name_item)

lemma try_block_success:
  "load_pages env = Inr (Some pg # pgs) \<Longrightarrow> embedFont_throws env = None \<Longrightarrow>
   drawText_throws env = None \<Longrightarrow> ensureDir_throws env = None \<Longrightarrow> save_throws env = None \<Longrightarrow>
   writeFile_throws env = None \<Longrightarrow>
   fst (try_block opts env c) = Inr (generateOutputPath (env_join env) (env_now env) opts c)"
  by (simp add: try_block_def Let_def)

lemma generateCertificate_returns:
  assumes "validateCertificateConfig opts c = Inr ()" and "fst (try_block opts env c) = Inr p"
  shows "fst (generateCertificate opts env c) = Inr p"
  using assms by (cases "try_block opts env c") (simp add: generateCertificate_def)

lemma try_block_no_pages:
  "load_pages env = Inr [] \<Longrightarrow>
   try_block opts env c =
     (Inl (new_CertificateGeneratorError (js ''Template PDF has no pages'') None), [LoadTemplate])"
  by (simp add: try_block_def)

lemma catch_block_rethrow: "catch_block c (new_CertificateGeneratorError m cause) =
    new_CertificateGeneratorError m cause"
  by (simp add: catch_block_def Let_def new_CertificateGeneratorError_def
      instanceof_CertificateGeneratorError_def)

text \<open>
  C9, as amended: when the loaded template has no page, the render of a valid item fails
  with a \<open>CertificateGeneratorError\<close> of the base class, of message
  \<open>Template PDF has no pages\<close> and without cause, after the load and the error log only:
  no file is written.
\<close>

theorem generateCertificate_no_pages:
  assumes "validateCertificateConfig opts c = Inr ()" and "load_pages env = Inr []"
  shows "generateCertificate opts env c =
     (Inl (JsError CertificateGeneratorError (js ''CertificateGeneratorError'')
             (js ''Template PDF has no pages'') None),
      [LoadTemplate, LogError (js ''Failed to generate certificate for: '' @ name c)]) \<and>
     (\<forall>p. WriteFile p \<notin> set (snd (generateCertificate opts env c)))"
proof -
  have "generateCertificate opts env c =
     (Inl (new_CertificateGeneratorError (js ''Template PDF has no pages'') None),
      [LoadTemplate, LogError (js ''Failed to generate certificate for: '' @ name c)])"
    using assms by (simp add: generateCertificate_def try_block_no_pages catch_block_rethrow)
  then show ?thesis by (simp add: new_CertificateGeneratorError_def)
qed

lemma validate_ada: "validateCertificateConfig example_options (item ''Ada Lovelace'' (Some ''ada@x.com'')) = Inr ()"
  by (simp add: eval_defs)

theorem generateCertificate_no_pages_witness:
  "validateCertificateConfig example_options (item ''Ada Lovelace'' (Some ''ada@x.com'')) = Inr () \<and>
   load_pages (example_env\<lparr>load_pages := Inr []\<rparr>) = Inr [] \<and>
   generateCertificate example_options (example_env\<lparr>load_pages := Inr []\<rparr>)
     (item ''Ada Lovelace'' (Some ''ada@x.com'')) =
     (Inl (JsError CertificateGeneratorError (js ''CertificateGeneratorError'')
             (js ''Template PDF has no pages'') None),
      [LoadTemplate, LogError (js ''Failed to generate certificate for: '' @ js ''Ada Lovelace'')])"
  using generateCertificate_no_pages[of example_options "item ''Ada Lovelace'' (Some ''ada@x.com'')"
      "example_env\<lparr>load_pages := Inr []\<rparr>"]
  by (simp add: validate_ada name_item)

text \<open>
  C9 as stated fails: the error of a template without pages is named
  \<open>CertificateGeneratorError\<close>, not \<open>TemplateError\<close>.
\<close>

theorem no_pages_error_is_not_TemplateError:
  "fst (generateCertificate example_options (example_env\<lparr>load_pages := Inr []\<rparr>)
     (item ''Ada Lovelace'' (Some ''ada@x.com''))) =
     Inl (new_CertificateGeneratorError (js ''Template PDF has no pages'') None) \<and>
   err_name (new_CertificateGeneratorError (js ''Template PDF has no pages'') None) \<noteq>
     js ''TemplateError''"
  by (simp add: generateCertificate_def validate_ada try_block_no_pages catch_block_rethrow)
    (simp add: new_CertificateGeneratorError_def js_def)

lemma generateCertificate_load_fails:
  "fst (generateCertificate example_test_options (example_env\<lparr>load_pages := Inl disk_full\<rparr>)
         (item ''Ada'' e)) =
     Inl (JsError CertificateGeneratorError (js ''CertificateGeneratorError'')
            (js ''Failed to generate certificate for: '' @ js ''Ada'') (Some disk_full))"
  using generateCertificate_caught[of example_test_options "item ''Ada'' e"
      "example_env\<lparr>load_pages := Inl disk_full\<rparr>" disk_full]
  by (simp add: validate_ada_test try_block_load catch_block_def Let_def disk_full_foreign
      new_CertificateGeneratorError_def name_item)

text \<open>
  C8 as stated fails: the error carries the name of the item, not the item. Two different
  items of the same name fail with the same error.
\<close>

theorem wrapped_error_omits_item:
  "fst (generateCertificate example_test_options (example_env\<lparr>load_pages := Inl disk_full\<rparr>)
         (item ''Ada'' (Some ''ada@x.com''))) =
   fst (generateCertificate example_test_options (example_env\<lparr>load_pages := Inl disk_full\<rparr>)
         (item ''Ada'' (Some ''ada@y.org''))) \<and>
   fst (generateCertificate example_test_options (example_env\<lparr>load_pages := Inl disk_full\<rparr>)
         (item ''Ada'' (Some ''ada@x.com''))) =
     Inl (JsError CertificateGeneratorError (js ''CertificateGeneratorError'')
            (js ''Failed to generate certificate for: '' @ js ''Ada'') (Some disk_full)) \<and>
   item ''Ada'' (Some ''ada@x.com'') \<noteq> item ''Ada'' (Some ''ada@y.org'')"
  by (simp add: generateCertificate_load_fails) (simp add: item_def js_def)

section \<open>Properties of the batch driver\<close>

lemma truncate_real_nat: "truncate_real (real m) = int m"
  by (simp add: truncate_real_def)

lemma slice_index_nat: "slice_index len (Num (real m)) = min m len"
  by (simp add: truncate_real_nat Let_def)

lemma js_slice_nat:
  assumes "m \<le> length xs"
  shows "js_slice xs (Num (real m)) (Num (real (m + c))) = take c (drop m xs)"
proof -
  have "take (min (m + c) (length xs) - m) (drop m xs) = take c (drop m xs)"
    using assms by (cases "m + c \<le> length xs") (auto simp: min_def)
  moreover have "slice_index (length xs) (Num (real m)) = m"
    using assms by (simp only: slice_index_nat min_absorb1)
  moreover have "slice_index (length xs) (Num (real (m + c))) = min (m + c) (length xs)"
    by (simp only: slice_index_nat)
  ultimately show ?thesis
    unfolding js_slice_def Let_def by (simp only:)
qed

lemma js_add_nat:
  assumes "rounds_integers_exactly rnd" and "m + c \<le> 9007199254740992"
  shows "js_add rnd (Num (real m)) (Num (real c)) = Num (real (m + c))"
proof -
  have "rnd (real (m + c)) = Some (real (m + c))"
    using assms unfolding rounds_integers_exactly_def by blast
  then show ?thesis by (simp add: round_to_def)
qed

lemma collect_run_item:
  "collect_result (run_item opts env c) st =
     (case fst (generateCertificate opts env c) of
        Inr p \<Rightarrow> st\<lparr>successful := successful st @ [p]\<rparr>
      | Inl e \<Rightarrow> st\<lparr>failed := failed st @ [(c, e)]\<rparr>)"
  by (simp add: run_item_def collect_result_def split: sum.splits)

lemma fold_collect:
  "fold collect_result (map (\<lambda>j. run_item opts (envs j) (configs ! j)) idxs) st =
     st\<lparr>successful := successful st @ paths_of opts envs configs idxs,
        failed := failed st @ failures_of opts envs configs idxs\<rparr>"
proof (induction idxs arbitrary: st)
  case Nil
  then show ?case by (simp add: paths_of_def failures_of_def)
next
  case (Cons j idxs)
  show ?case
  proof (cases "outcome opts envs configs j")
    case (Inl e)
    then show ?thesis
      using Cons[of "st\<lparr>failed := failed st @ [(configs ! j, e)]\<rparr>"]
      by (simp add: collect_run_item paths_of_def failures_of_def outcome_def)
  next
    case (Inr p)
    then show ?thesis
      using Cons[of "st\<lparr>successful := successful st @ [p]\<rparr>"]
      by (simp add: collect_run_item paths_of_def failures_of_def outcome_def)
  qed
qed

lemma chunk_runs:
  "map (\<lambda>(j, config). (j, run_item opts (envs j) config))
     (zip [m ..< m + length (take c (drop m configs))] (take c (drop m configs))) =
   map (\<lambda>j. (j, run_item opts (envs j) (configs ! j))) [m ..< m + length (take c (drop m configs))]"
  by (rule nth_equalityI) (auto simp: min_def split: if_splits)

lemma process_chunk_eq:
  assumes "rounds_integers_exactly rnd" and "concurrency opts = Num (real c)"
    and "m \<le> length configs" and "m + c \<le> 9007199254740992"
  shows "process_chunk rnd opts envs so configs (Num (real m)) st =
     st\<lparr>successful := successful st @
          paths_of opts envs configs [m ..< m + min c (length configs - m)],
        failed := failed st @
          failures_of opts envs configs [m ..< m + min c (length configs - m)],
        trace := trace st @ chunk_events so c (length configs) m (min c (length configs - m))\<rparr>"
proof -
  let ?chunk = "take c (drop m configs)"
  let ?idx = "[m ..< m + length ?chunk]"
  let ?runs = "map (\<lambda>j. (j, run_item opts (envs j) (configs ! j))) ?idx"
  have len: "length ?chunk = min c (length configs - m)" by (simp add: min.commute)
  have up: "js_add rnd (Num (real m)) (concurrency opts) = Num (real (m + c))"
    unfolding assms(2) using assms(1,4) by (rule js_add_nat)
  have sl: "js_slice configs (Num (real m)) (Num (real (m + c))) = ?chunk"
    using assms(3) by (rule js_slice_nat)
  have fi: "slice_index (length configs) (Num (real m)) = m"
    using assms(3) by (simp add: slice_index_nat del: slice_index.simps)
  have r1: "map snd ?runs = map (\<lambda>j. run_item opts (envs j) (configs ! j)) ?idx"
    by (simp add: comp_def)
  have r2: "map (\<lambda>(j, result). Launched j) ?runs = map Launched ?idx"
    by (simp add: comp_def)
  have r3: "map fst ?runs = ?idx" by (simp add: comp_def)
  have mn: "Math_min (Num (real (m + c))) (Num (real (length configs))) =
      Num (real (min (m + c) (length configs)))"
    by (simp add: Math_min_def min_def)
  show ?thesis
    unfolding process_chunk_def Let_def up sl fi chunk_runs r1 r2 r3 fold_collect mn
    by (simp add: chunk_events_def min.commute del: slice_index.simps)
qed

lemma paths_of_append:
  "paths_of opts envs configs (xs @ ys) = paths_of opts envs configs xs @ paths_of opts envs configs ys"
  by (simp add: paths_of_def)

lemma failures_of_append:
  "failures_of opts envs configs (xs @ ys) =
   failures_of opts envs configs xs @ failures_of opts envs configs ys"
  by (simp add: failures_of_def)

lemma upt_chunk_split:
  assumes "i < n" and "0 < c"
  shows "[i ..< n] = [i ..< i + min c (n - i)] @ [i + c ..< n]"
proof (cases "n - i \<le> c")
  case True
  with assms show ?thesis by (simp add: min_def)
next
  case False
  then have "i + c \<le> n" by arith
  then have "[i ..< n] = [i ..< i + c] @ [i + c ..< n]"
    using upt_add_eq_append[of i "i + c" "n - (i + c)"] by simp
  with False show ?thesis by (simp add: min_def)
qed

lemma process_chunks_result:
  assumes "rounds_integers_exactly rnd" and "concurrency opts = Num (real c)" and "0 < c"
    and "length configs + c \<le> 9007199254740992"
  shows "process_chunks rnd opts envs so configs (Num (real m)) st =
     Some (st\<lparr>successful := successful st @ paths_of opts envs configs [m ..< length configs],
              failed := failed st @ failures_of opts envs configs [m ..< length configs],
              trace := trace st @ events_from so c (length configs) m\<rparr>)"
proof (induction "length configs - m" arbitrary: m st rule: less_induct)
  case less
  show ?case
  proof (cases "m < length configs")
    case False
    then show ?thesis
      by (subst process_chunks.simps)
        (simp add: events_from.simps paths_of_def failures_of_def)
  next
    case True
    have lt: "length configs - (m + c) < length configs - m"
      using True assms(3) by arith
    have b: "m + c \<le> 9007199254740992" using True assms(4) by arith
    have up: "js_add rnd (Num (real m)) (concurrency opts) = Num (real (m + c))"
      unfolding assms(2) using assms(1) b by (rule js_add_nat)
    have pc: "process_chunk rnd opts envs so configs (Num (real m)) st =
        st\<lparr>successful := successful st @
             paths_of opts envs configs [m ..< m + min c (length configs - m)],
           failed := failed st @
             failures_of opts envs configs [m ..< m + min c (length configs - m)],
           trace := trace st @ chunk_events so c (length configs) m (min c (length configs - m))\<rparr>"
      using assms(1,2) True b by (intro process_chunk_eq) auto
    have ev: "events_from so c (length configs) m =
        chunk_events so c (length configs) m (min c (length configs - m)) @
        events_from so c (length configs) (m + c)"
      using True assms(3) by (subst events_from.simps) simp
    have lp: "js_lt (Num (real m)) (Num (real (length configs)))" using True by simp
    show ?thesis
      apply (subst process_chunks.simps)
      apply (simp only: lp if_True up less[OF lt] pc)
      apply (simp add: ev upt_chunk_split[OF True assms(3)] paths_of_append failures_of_append)
      done
  qed
qed

lemma concat_chunk_list: "0 < c \<Longrightarrow> concat (chunk_list c xs) = xs"
proof (induction c xs rule: chunk_list.induct)
  case (1 c xs)
  then show ?case by (subst chunk_list.simps) auto
qed

lemma chunk_list_sizes:
  "g \<in> set (chunk_list c xs) \<Longrightarrow> 1 \<le> length g \<and> length g \<le> c"
proof (induction c xs rule: chunk_list.induct)
  case (1 c xs)
  from "1.prems" have ne: "\<not> (c = 0 \<or> xs = [])"
    by (subst (asm) chunk_list.simps) (auto split: if_splits)
  with "1.prems" have "g = take c xs \<or> g \<in> set (chunk_list c (drop c xs))"
    by (subst (asm) chunk_list.simps) auto
  then show ?case
  proof
    assume "g = take c xs"
    with ne show ?thesis by (cases xs) (auto simp: min_def)
  next
    assume "g \<in> set (chunk_list c (drop c xs))"
    with 1 ne show ?thesis by blast
  qed
qed

lemma ceil_step:
  assumes "0 < (c::nat)" and "0 < n"
  shows "(n + c - 1) div c = Suc ((n - c + c - 1) div c)"
proof (cases "c \<le> n")
  case True
  then have "n + c - 1 = (n - 1) + c" using assms by arith
  then have "(n + c - 1) div c = (n - 1 + c) div c" by (rule arg_cong)
  also have "\<dots> = Suc ((n - 1) div c)"
    using div_add_self2[of c "n - 1"] assms(1) by simp
  finally have "(n + c - 1) div c = Suc ((n - 1) div c)" .
  moreover from True have "n - c + c - 1 = n - 1" by arith
  ultimately show ?thesis by simp
next
  case False
  then have "n - c + c - 1 = c - 1" by arith
  then have r: "(n - c + c - 1) div c = 0" using assms by simp
  from False assms have "c \<le> n + c - 1" and "n + c - 1 < c + c" by arith+
  then have "(n + c - 1) div c = 1"
    by (metis One_nat_def Suc_leI assms(1) div_less div_add_self1 le_add_diff_inverse
        add.right_neutral less_imp_le_nat nat_neq_iff plus_1_eq_Suc div_nat_eqI mult_2 mult.commute nat_mult_1)
  with r show ?thesis by simp
qed

lemma length_chunk_list:
  "0 < c \<Longrightarrow> length (chunk_list c xs) = (length xs + c - 1) div c"
proof (induction c xs rule: chunk_list.induct)
  case (1 c xs)
  show ?case
  proof (cases "xs = []")
    case True
    with "1.prems" show ?thesis by (subst chunk_list.simps) simp
  next
    case False
    with 1 have "length (chunk_list c (drop c xs)) = (length xs - c + c - 1) div c"
      by simp
    moreover from False have "0 < length xs" by simp
    ultimately show ?thesis
      using "1.prems" False ceil_step[of c "length xs"]
      by (subst chunk_list.simps) simp
  qed
qed

lemma outstanding_append: "outstanding (xs @ ys) = outstanding xs + outstanding ys"
  by (induction xs rule: outstanding.induct) auto

lemma outstanding_Launched: "outstanding (map Launched idxs) = int (length idxs)"
  by (induction idxs) auto

lemma outstanding_Settled: "outstanding (map Settled idxs) = - int (length idxs)"
  by (induction idxs) auto

lemma outstanding_le_launches:
  "outstanding evs \<le> int (length (filter (\<lambda>e. \<exists>j. e = Launched j) evs))"
  by (induction evs rule: outstanding.induct) auto

lemma length_filter_take: "length (filter P (take k xs)) \<le> length (filter P xs)"
proof -
  have "filter P xs = filter P (take k xs) @ filter P (drop k xs)"
    by (metis append_take_drop_id filter_append)
  then show ?thesis by simp
qed



lemma launches_chunk_events:
  "length (filter (\<lambda>e. \<exists>j. e = Launched j) (chunk_events so c n i len)) = len"
proof -
  have "filter (\<lambda>e. \<exists>j. e = Launched j) (map Launched idxs) = map Launched idxs" for idxs
    by (induction idxs) auto
  moreover have "filter (\<lambda>e. \<exists>j. e = Launched j) (map Settled idxs) = []" for idxs
    by (induction idxs) auto
  ultimately show ?thesis by (simp add: chunk_events_def)
qed

lemma outstanding_chunk_prefix:
  "outstanding (take k (chunk_events so c n i len)) \<le> int len"
proof -
  have "outstanding (take k (chunk_events so c n i len)) \<le>
      int (length (filter (\<lambda>e. \<exists>j. e = Launched j) (take k (chunk_events so c n i len))))"
    by (rule outstanding_le_launches)
  also have "\<dots> \<le> int (length (filter (\<lambda>e. \<exists>j. e = Launched j) (chunk_events so c n i len)))"
    using length_filter_take by (simp del: length_filter_le)
  finally show ?thesis by (simp add: launches_chunk_events)
qed

lemma outstanding_chunk_events:
  assumes "length (so [i ..< i + len]) = len"
  shows "outstanding (chunk_events so c n i len) = 0"
  using assms
  by (simp add: chunk_events_def outstanding_append outstanding_Launched outstanding_Settled)

lemma outstanding_events_from_prefix:
  "\<forall>idxs. length (so idxs) = length idxs \<Longrightarrow>
   outstanding (take k (events_from so c n i)) \<le> int c"
proof (induction so c n i arbitrary: k rule: events_from.induct)
  case (1 so c n i)
  show ?case
  proof (cases "c = 0 \<or> n \<le> i")
    case True
    then show ?thesis by (subst events_from.simps) simp
  next
    case False
    let ?b = "chunk_events so c n i (min c (n - i))"
    have ev: "events_from so c n i = ?b @ events_from so c n (i + c)"
      using False by (subst events_from.simps) simp
    show ?thesis
    proof (cases "k \<le> length ?b")
      case True
      then have "outstanding (take k (events_from so c n i)) = outstanding (take k ?b)"
        by (simp add: ev)
      also have "\<dots> \<le> int (min c (n - i))" by (rule outstanding_chunk_prefix)
      finally show ?thesis by simp
    next
      case k: False
      have "outstanding ?b = 0"
        using "1.prems" by (intro outstanding_chunk_events) simp
      with k have "outstanding (take k (events_from so c n i)) =
          outstanding (take (k - length ?b) (events_from so c n (i + c)))"
        by (simp add: ev outstanding_append)
      also have "\<dots> \<le> int c" using "1.IH"[OF False "1.prems"] .
      finally show ?thesis .
    qed
  qed
qed

lemma launched_groups_Launched:
  "launched_groups (map Launched idxs @ evs) cur = launched_groups evs (cur @ idxs)"
  by (induction idxs arbitrary: cur) auto

lemma launched_groups_Settled:
  "launched_groups (map Settled idxs @ evs) cur = launched_groups evs cur"
  by (induction idxs) auto

lemma launched_groups_chunk:
  "launched_groups (chunk_events so c n i len @ evs) [] = [i ..< i + len] # launched_groups evs []"
  by (simp add: chunk_events_def launched_groups_Launched launched_groups_Settled)

lemma take_upt_min: "take c [i ..< n] = [i ..< i + min c (n - i)]"
proof (cases "c \<le> n - i")
  case True
  then show ?thesis by (cases "n \<le> i") (simp_all add: min_def)
next
  case False
  then have "take c [i ..< n] = [i ..< n]" by simp
  moreover have "[i ..< i + (n - i)] = [i ..< n]" by (cases "i \<le> n") simp_all
  ultimately show ?thesis using False by (simp add: min_def)
qed

lemma launched_groups_events_from:
  "0 < c \<Longrightarrow> launched_groups (events_from so c n i) [] = chunk_list c [i ..< n]"
proof (induction so c n i rule: events_from.induct)
  case (1 so c n i)
  show ?case
  proof (cases "n \<le> i")
    case True
    then show ?thesis
      by (subst events_from.simps, subst chunk_list.simps) simp
  next
    case False
    with "1.prems" have ne: "\<not> (c = 0 \<or> n \<le> i)" by simp
    have ev: "events_from so c n i =
        chunk_events so c n i (min c (n - i)) @ events_from so c n (i + c)"
      using ne by (subst events_from.simps) simp
    have cl: "chunk_list c [i ..< n] = [i ..< i + min c (n - i)] # chunk_list c [i + c ..< n]"
      using ne by (subst chunk_list.simps) (simp add: take_upt_min add.commute)
    show ?thesis
      using "1.IH"[OF ne "1.prems"] by (simp add: ev cl launched_groups_chunk)
  qed
qed

lemma sequenced_after_append:
  assumes "sequenced_after c pre xs" and "sequenced_after c (pre @ xs) ys"
  shows "sequenced_after c pre (xs @ ys)"
  unfolding sequenced_after_def
proof (intro allI impI)
  fix p assume p: "p < length (xs @ ys)"
  show "case (xs @ ys) ! p of
          Launched j \<Rightarrow> \<forall>j' < (j div c) * c. Settled j' \<in> set (pre @ take p (xs @ ys))
        | _ \<Rightarrow> True"
  proof (cases "p < length xs")
    case True
    with assms(1) show ?thesis
      by (auto simp: sequenced_after_def nth_append split: batch_event.splits)
  next
    case False
    with p have q: "p - length xs < length ys" by simp
    from False have "(xs @ ys) ! p = ys ! (p - length xs)"
      and "take p (xs @ ys) = xs @ take (p - length xs) ys"
      by (simp_all add: nth_append)
    with assms(2) q show ?thesis
      by (auto simp: sequenced_after_def split: batch_event.splits)
  qed
qed

lemma Launched_in_chunk_events:
  "Launched j \<in> set (chunk_events so c n i len) \<Longrightarrow> i \<le> j \<and> j < i + len"
  by (auto simp: chunk_events_def)

lemma div_mult_of_chunk:
  assumes "c dvd i" and "i \<le> j" and "j < i + c"
  shows "(j div c) * c = (i::nat)"
proof -
  from assms(1) obtain k where k: "i = c * k" by (auto simp: dvd_def)
  from assms(2,3) have c: "0 < c" by arith
  from assms(2) obtain r where r: "j = i + r" using le_Suc_ex by blast
  with assms(3) have "r < c" by simp
  with k r c have "j div c = k" by simp
  with k show ?thesis by simp
qed

lemma sequenced_after_chunk:
  assumes "c dvd i" and "len \<le> c" and "\<forall>j' < i. Settled j' \<in> set pre"
  shows "sequenced_after c pre (chunk_events so c n i len)"
  unfolding sequenced_after_def
proof (intro allI impI)
  fix p assume p: "p < length (chunk_events so c n i len)"
  show "case chunk_events so c n i len ! p of
          Launched j \<Rightarrow> \<forall>j' < (j div c) * c.
            Settled j' \<in> set (pre @ take p (chunk_events so c n i len))
        | _ \<Rightarrow> True"
  proof (cases "chunk_events so c n i len ! p")
    case (Launched j)
    with p have "Launched j \<in> set (chunk_events so c n i len)"
      by (metis nth_mem)
    then have "i \<le> j" and "j < i + c"
      using Launched_in_chunk_events[of j so c n i len] assms(2) by auto
    with assms(1) have "(j div c) * c = i" by (rule div_mult_of_chunk)
    with assms(3) Launched show ?thesis by auto
  qed simp_all
qed

lemma sequenced_after_events_from:
  "0 < c \<Longrightarrow> c dvd i \<Longrightarrow> \<forall>idxs. set (so idxs) = set idxs \<Longrightarrow>
   \<forall>j' < i. Settled j' \<in> set pre \<Longrightarrow> sequenced_after c pre (events_from so c n i)"
proof (induction so c n i arbitrary: pre rule: events_from.induct)
  case (1 so c n i)
  show ?case
  proof (cases "n \<le> i")
    case True
    then show ?thesis by (subst events_from.simps) (simp add: sequenced_after_def)
  next
    case False
    with "1.prems"(1) have ne: "\<not> (c = 0 \<or> n \<le> i)" by simp
    let ?b = "chunk_events so c n i (min c (n - i))"
    have ev: "events_from so c n i = ?b @ events_from so c n (i + c)"
      using ne by (subst events_from.simps) simp
    have b: "sequenced_after c pre ?b"
      using "1.prems"(2,4) by (intro sequenced_after_chunk) auto
    show ?thesis
    proof (cases "i + c \<le> n")
      case True
      then have m: "min c (n - i) = c" by simp
      have "\<forall>j' < i + c. Settled j' \<in> set (pre @ ?b)"
      proof (intro allI impI)
        fix j' assume "j' < i + c"
        show "Settled j' \<in> set (pre @ ?b)"
        proof (cases "j' < i")
          case True
          with "1.prems"(4) show ?thesis by simp
        next
          case False
          with \<open>j' < i + c\<close> have "j' \<in> set (so [i ..< i + c])"
            using "1.prems"(3) by simp
          then show ?thesis by (simp add: m chunk_events_def)
        qed
      qed
      then have "sequenced_after c (pre @ ?b) (events_from so c n (i + c))"
        using "1.prems"(1,2,3) by (intro "1.IH"[OF ne]) auto
      with b show ?thesis unfolding ev by (rule sequenced_after_append)
    next
      case False
      then have "events_from so c n (i + c) = []"
        by (subst events_from.simps) simp
      with b show ?thesis by (simp add: ev)
    qed
  qed
qed

lemma generateCertificates_result:
  assumes "rounds_integers_exactly rnd" and "concurrency opts = Num (real c)" and "0 < c"
    and "length configs + c \<le> 9007199254740992"
  shows "generateCertificates rnd opts envs so configs =
     Some \<lparr>successful = paths_of opts envs configs [0 ..< length configs],
           failed = failures_of opts envs configs [0 ..< length configs],
           trace = BatchStarted (length configs) # events_from so c (length configs) 0\<rparr>"
proof -
  have "process_chunks rnd opts envs so configs (Num (real (0::nat)))
      \<lparr>successful = [], failed = [], trace = [BatchStarted (length configs)]\<rparr> =
     Some \<lparr>successful = paths_of opts envs configs [0 ..< length configs],
           failed = failures_of opts envs configs [0 ..< length configs],
           trace = BatchStarted (length configs) # events_from so c (length configs) 0\<rparr>"
    by (subst process_chunks_result[OF assms]) simp
  then show ?thesis by (simp add: generateCertificates_def)
qed

text \<open>
  C2, as amended: for every batch of \<open>N\<close> items and every concurrency that is an integer
  \<open>C \<ge> 1\<close> (with \<open>N + C \<le> 2^53\<close>, so that the additions of the loop are exact), whatever
  the order in which the renders of a chunk settle, the driver returns, having rendered
  every item and collected every result; the groups of renders that it starts between
  two progress lines are the consecutive groups of at most \<open>C\<close> indices of the batch, in
  the order of the batch, \<open>ceil(N / C)\<close> of them; when a render starts, every render of
  every earlier group has settled; and after any number of events at most \<open>C\<close> renders
  are started and not settled.
\<close>

theorem generateCertificates_groups:
  assumes "rounds_integers_exactly rnd"
    and "concurrency opts = Num (real c)" and "1 \<le> c"
    and "length configs + c \<le> 9007199254740992"
    and "\<forall>idxs. mset (settle_order idxs) = mset idxs"
  shows "\<exists>st. generateCertificates rnd opts envs settle_order configs = Some st \<and>
     successful st = paths_of opts envs configs [0 ..< length configs] \<and>
     failed st = failures_of opts envs configs [0 ..< length configs] \<and>
     launched_groups (trace st) [] = chunk_list c [0 ..< length configs] \<and>
     concat (launched_groups (trace st) []) = [0 ..< length configs] \<and>
     (\<forall>g \<in> set (launched_groups (trace st) []). 1 \<le> length g \<and> length g \<le> c) \<and>
     length (launched_groups (trace st) []) = (length configs + c - 1) div c \<and>
     groups_in_sequence c (trace st) \<and>
     (\<forall>k. outstanding (take k (trace st)) \<le> int c)"
proof -
  let ?n = "length configs"
  let ?evs = "events_from settle_order c ?n 0"
  let ?tr = "BatchStarted ?n # ?evs"
  from assms(3) have c: "0 < c" by simp
  have len: "\<forall>idxs. length (settle_order idxs) = length idxs"
    using assms(5) by (metis size_mset)
  have sets: "\<forall>idxs. set (settle_order idxs) = set idxs"
    using assms(5) by (metis set_mset_mset)
  have g: "launched_groups ?tr [] = chunk_list c [0 ..< ?n]"
    using launched_groups_events_from[OF c, of settle_order ?n 0] by simp
  have sizes: "\<forall>g \<in> set (chunk_list c [0 ..< ?n]). 1 \<le> length g \<and> length g \<le> c"
    using chunk_list_sizes by blast
  have bound: "outstanding (take k ?tr) \<le> int c" for k
  proof (cases k)
    case 0
    then show ?thesis by simp
  next
    case (Suc k')
    then show ?thesis
      using outstanding_events_from_prefix[OF len, of k' c ?n 0] by simp
  qed
  have "sequenced_after c [] ([BatchStarted ?n] @ ?evs)"
  proof (rule sequenced_after_append)
    show "sequenced_after c [] [BatchStarted ?n]" by (simp add: sequenced_after_def)
    show "sequenced_after c ([] @ [BatchStarted ?n]) ?evs"
      using c sets by (intro sequenced_after_events_from) auto
  qed
  then have seq: "groups_in_sequence c ?tr" by (simp add: groups_in_sequence_def)
  show ?thesis
    unfolding generateCertificates_result[OF assms(1,2) c assms(4)]
    using g concat_chunk_list[OF c, of "[0 ..< ?n]"] sizes
      length_chunk_list[OF c, of "[0 ..< ?n]"] seq bound
    by simp
qed


lemma example_batch_nth:
  "example_batch ! 0 = item ''Ada Lovelace'' (Some ''ada@x.com'')"
  "example_batch ! Suc 0 = item [] (Some ''b@x.com'')"
  "example_batch ! 2 = item ''Grace Hopper'' (Some ''grace@x.com'')"
  "length example_batch = 3"
  by (simp_all add: example_batch_def)

lemma example_render:
  assumes "validateCertificateConfig example_options c = Inr ()"
  shows "fst (generateCertificate example_options example_env c) =
         Inr (generateOutputPath join_plain example_now example_options c)"
proof -
  have "fst (try_block example_options example_env c) =
      Inr (generateOutputPath (env_join example_env) (env_now example_env) example_options c)"
    by (rule try_block_success[where pg = "\<lparr>getWidth = Num 842, getHeight = Num 595\<rparr>" and pgs = "[]"])
      (simp_all add: example_env_def)
  then have "fst (try_block example_options example_env c) =
      Inr (generateOutputPath join_plain example_now example_options c)"
    by (simp add: example_env_def)
  with assms show ?thesis by (rule generateCertificate_returns)
qed

lemma outcome_ada:
  "outcome example_options (\<lambda>_. example_env) example_batch 0 =
     Inr (js ''/out/ada_lovelace_ada_x_com_2024-05-17.pdf'')"
proof -
  have v: "validateCertificateConfig example_options (item ''Ada Lovelace'' (Some ''ada@x.com'')) = Inr ()"
    by (simp add: eval_defs)
  have "generateOutputPath join_plain example_now example_options
      (item ''Ada Lovelace'' (Some ''ada@x.com'')) = js ''/out/ada_lovelace_ada_x_com_2024-05-17.pdf''"
    by (simp add: eval_defs path_defs)
  with example_render[OF v] show ?thesis by (simp add: outcome_def example_batch_nth)
qed

lemma outcome_grace:
  "outcome example_options (\<lambda>_. example_env) example_batch 2 =
     Inr (js ''/out/grace_hopper_grace_x_com_2024-05-17.pdf'')"
proof -
  have v: "validateCertificateConfig example_options (item ''Grace Hopper'' (Some ''grace@x.com'')) = Inr ()"
    by (simp add: eval_defs)
  have "generateOutputPath join_plain example_now example_options
      (item ''Grace Hopper'' (Some ''grace@x.com'')) = js ''/out/grace_hopper_grace_x_com_2024-05-17.pdf''"
    by (simp add: eval_defs path_defs)
  with example_render[OF v] show ?thesis by (simp add: outcome_def example_batch_nth)
qed

lemma outcome_empty_name:
  "outcome example_options (\<lambda>_. example_env) example_batch (Suc 0) =
     Inl (new_InvalidConfigError (js ''Certificate name cannot be empty''))"
  by (simp add: outcome_def example_batch_nth generateCertificate_def
      validateCertificateConfig_def item_def truthy_string_def js_def)



lemma rounds_integers_exactly_exact: "rounds_integers_exactly exact_rounding"
  by (simp add: rounds_integers_exactly_def exact_rounding_def)

lemma example_concurrency: "concurrency example_options = Num (real (2::nat))"
  by (simp add: example_options_def)


lemma trace_fold_collect: "trace (fold collect_result rs st) = trace st"
proof (induction rs arbitrary: st)
  case Nil
  then show ?case by simp
next
  case (Cons r rs)
  have "trace (collect_result r st) = trace st"
    by (simp add: collect_result_def split: bool.splits option.splits)
  with Cons show ?case by simp
qed

lemma trace_process_chunk:
  "trace (process_chunk rnd opts envs so configs i st) =
     trace st @
     map Launched [slice_index (length configs) i ..<
        slice_index (length configs) i + length (js_slice configs i (js_add rnd i (concurrency opts)))] @
     map Settled (so [slice_index (length configs) i ..<
        slice_index (length configs) i + length (js_slice configs i (js_add rnd i (concurrency opts)))]) @
     [Progress (Math_min (js_add rnd i (concurrency opts)) (Num (real (length configs))))
        (length configs)]"
proof -
  have "map (\<lambda>(j, result). Launched j) (map (\<lambda>(j, config). (j, f j config)) (zip idx chunk)) =
      map Launched idx" and
    "map fst (map (\<lambda>(j, config). (j, f j config)) (zip idx chunk)) = idx"
    if "length idx = length chunk" for idx :: "nat list" and chunk :: "CertificateConfig list"
      and f :: "nat \<Rightarrow> CertificateConfig \<Rightarrow> item_result"
    using that by (induction idx chunk rule: list_induct2) auto
  then show ?thesis
    by (simp add: process_chunk_def Let_def trace_fold_collect del: slice_index.simps)
qed

lemma truncate_three_halves: "truncate_real (3 / 2) = 1"
  by (simp add: truncate_real_def)

lemma add_three_halves: "js_add exact_rounding (Num 0) (Num (3 / 2)) = Num (3 / 2)"
  "js_add exact_rounding (Num (3 / 2)) (Num (3 / 2)) = Num 3"
  by (simp_all add: round_to_def exact_rounding_def)

text \<open>
  C2 as stated fails: a concurrency of 1.5 is at least 1, and \<open>slice\<close> truncates its
  bounds, so that the second group of a batch of three items has two items.
\<close>

theorem fractional_concurrency_groups:
  "validateOptions (example_options\<lparr>concurrency := Num (3 / 2)\<rparr>) = Inr () \<and>
   js_le (Num 1) (concurrency (example_options\<lparr>concurrency := Num (3 / 2)\<rparr>)) \<and>
   map_option (\<lambda>st. launched_groups (trace st) [])
     (generateCertificates exact_rounding (example_options\<lparr>concurrency := Num (3 / 2)\<rparr>)
        (\<lambda>_. example_env) rev example_batch) = Some [[0], [1, 2]] \<and>
   \<not> js_le (Num (real (length [1::nat, 2]))) (Num (3 / 2))"
proof -
  let ?opts = "example_options\<lparr>concurrency := Num (3 / 2)\<rparr>"
  have cc: "concurrency ?opts = Num (3 / 2)" by simp
  have s0: "js_slice example_batch (Num 0) (Num (3 / 2)) = [example_batch ! 0]"
    by (simp add: js_slice_def example_batch_def truncate_real_def)
  have s1: "js_slice example_batch (Num (3 / 2)) (Num 3) = [example_batch ! Suc 0, example_batch ! 2]"
    by (simp add: js_slice_def example_batch_def truncate_real_def)
  have i0: "slice_index 3 (Num 0) = 0" "slice_index 3 (Num (3 / 2)) = Suc 0"
    by (simp_all add: truncate_real_def)
  have upt: "[0 ..< Suc 0] = [0]" "[Suc 0 ..< 3] = [Suc 0, 2]"
    by (simp_all add: upt_rec numeral_3_eq_3 numeral_2_eq_2)
  have "generateCertificates exact_rounding ?opts (\<lambda>_. example_env) rev example_batch =
      Some (process_chunk exact_rounding ?opts (\<lambda>_. example_env) rev example_batch (Num (3 / 2))
        (process_chunk exact_rounding ?opts (\<lambda>_. example_env) rev example_batch (Num 0)
          \<lparr>successful = [], failed = [], trace = [BatchStarted 3]\<rparr>))"
    unfolding generateCertificates_def
    apply (subst process_chunks.simps)
    apply (simp only: cc add_three_halves example_batch_nth)
    apply (subst process_chunks.simps)
    apply (simp only: cc add_three_halves example_batch_nth)
    apply (subst process_chunks.simps)
    apply (simp add: example_batch_nth)
    done
  moreover have "validateOptions ?opts = Inr ()"
    by (simp add: validateOptions_def example_options_def truthy_string_def js_def)
  ultimately show ?thesis
    by (simp add: trace_process_chunk round_to_def exact_rounding_def s0 s1 i0 upt
        example_batch_nth del: slice_index.simps)
qed


theorem generateCertificates_groups_witness:
  "rounds_integers_exactly exact_rounding \<and> concurrency example_options = Num (real (2::nat)) \<and>
   (\<forall>idxs::nat list. mset (rev idxs) = mset idxs) \<and>
   (\<exists>st. generateCertificates exact_rounding example_options (\<lambda>_. example_env) rev
            example_batch = Some st \<and>
      launched_groups (trace st) [] = [[0, 1], [2]] \<and>
      length (successful st) = 2 \<and> length (failed st) = 1 \<and>
      groups_in_sequence 2 (trace st))"
proof -
  have c: "1 \<le> (2::nat)" by simp
  have b: "length example_batch + 2 \<le> 9007199254740992" by (simp add: example_batch_nth)
  have p: "\<forall>idxs::nat list. mset (rev idxs) = mset idxs" by simp
  have upt: "[0 ..< 3] = [0, Suc 0, 2]"
    by (simp add: upt_rec[of 0] upt_rec[of 1] upt_rec[of 2] upt_rec[of 3] numeral_3_eq_3)
  have g: "chunk_list 2 [0, Suc 0, 2::nat] = [[0, Suc 0], [2]]"
    by (simp add: chunk_list.simps)
  have s: "paths_of example_options (\<lambda>_. example_env) example_batch [0, Suc 0, 2] =
      [js ''/out/ada_lovelace_ada_x_com_2024-05-17.pdf'',
       js ''/out/grace_hopper_grace_x_com_2024-05-17.pdf'']"
    by (simp add: paths_of_def outcome_ada outcome_grace outcome_empty_name)
  have f: "length (failures_of example_options (\<lambda>_. example_env) example_batch [0, Suc 0, 2]) = 1"
    by (simp add: failures_of_def outcome_ada outcome_grace outcome_empty_name)
  from generateCertificates_groups[OF rounds_integers_exactly_exact example_concurrency c b p,
      of "\<lambda>_. example_env"]
  show ?thesis
    using rounds_integers_exactly_exact example_concurrency p
    by (auto simp: example_batch_nth upt g s f)
qed

end
